theory Spec2Isabelle
  imports Main
begin

unbundle bit_operations_syntax

section \<open>Strings and slash-separated paths\<close>

text \<open>
  Go strings are byte sequences; they are modelled as \<open>string\<close> (a list of 8-bit
  characters). The helpers below are the functions of the Go packages \<open>strings\<close>,
  \<open>path\<close> and \<open>path/filepath\<close> that the repository calls, for a system whose path
  separator is the slash.
\<close>

definition HasPrefix :: "string \<Rightarrow> string \<Rightarrow> bool" where
  "HasPrefix s p = (take (length p) s = p)"

definition HasSuffix :: "string \<Rightarrow> string \<Rightarrow> bool" where
  "HasSuffix s p = (length p \<le> length s \<and> drop (length s - length p) s = p)"

definition TrimPrefix :: "string \<Rightarrow> string \<Rightarrow> string" where
  "TrimPrefix s p = (if HasPrefix s p then drop (length p) s else s)"

definition TrimSuffix :: "string \<Rightarrow> string \<Rightarrow> string" where
  "TrimSuffix s p = (if HasSuffix s p then take (length s - length p) s else s)"

text \<open>\<open>strings.Replace(s, "\\", "/", -1)\<close>: every backslash becomes a slash.\<close>

definition ReplaceBackslash :: "string \<Rightarrow> string" where
  "ReplaceBackslash s = map (\<lambda>c. if c = CHR 0x5C then CHR ''/'' else c) s"

text \<open>\<open>strings.Join(xs, sep)\<close>.\<close>

fun Join :: "string list \<Rightarrow> string \<Rightarrow> string" where
  "Join [] sep = []"
| "Join [x] sep = x"
| "Join (x # y # ys) sep = x @ sep @ Join (y # ys) sep"

text \<open>\<open>strings.Split(s, "/")\<close>: the pieces between the slashes, empty pieces kept.\<close>

fun splitSlash :: "string \<Rightarrow> string list" where
  "splitSlash [] = [[]]"
| "splitSlash (c # cs) =
     (if c = CHR ''/'' then [] # splitSlash cs
      else (case splitSlash cs of [] \<Rightarrow> [[c]] | s # ss \<Rightarrow> (c # s) # ss))"

text \<open>
  \<open>filepath.Ext\<close>: the suffix that starts at the last dot of the last path element, empty
  when that element has no dot. The Go loop walks from the end of the string back to the
  first separator; \<open>extScan\<close> is that loop over the reversed string.
\<close>

fun extScan :: "string \<Rightarrow> string \<Rightarrow> string" where
  "extScan [] acc = []"
| "extScan (c # cs) acc =
     (if c = CHR ''/'' then []
      else if c = CHR ''.'' then c # acc
      else extScan cs (c # acc))"

definition Ext :: "string \<Rightarrow> string" where
  "Ext p = extScan (rev p) []"

text \<open>
  \<open>path.Clean\<close>: empty and single-dot elements are dropped, a double-dot element removes
  the element before it (at the root it is dropped, at the start of a relative path it is
  kept), and the empty result is the single dot. \<open>cleanSegs\<close> holds the kept elements in
  reverse.
\<close>

fun cleanSegs :: "bool \<Rightarrow> string list \<Rightarrow> string list \<Rightarrow> string list" where
  "cleanSegs rooted acc [] = rev acc"
| "cleanSegs rooted acc (s # ss) =
     (if s = [] \<or> s = ''.'' then cleanSegs rooted acc ss
      else if s = ''..'' then
        (case acc of
           [] \<Rightarrow> if rooted then cleanSegs rooted [] ss else cleanSegs rooted [''..''] ss
         | a # as \<Rightarrow> if a = ''..'' then cleanSegs rooted (''..'' # acc) ss
                     else cleanSegs rooted as ss)
      else cleanSegs rooted (s # acc) ss)"

definition Clean :: "string \<Rightarrow> string" where
  "Clean p =
     (let rooted = HasPrefix p ''/'';
          out = (if rooted then ''/'' else []) @ Join (cleanSegs rooted [] (splitSlash p)) ''/''
      in if out = [] then ''.'' else out)"

text \<open>\<open>path.Join\<close> and \<open>filepath.Join\<close>: empty elements are ignored, the rest is joined
  with slashes and cleaned; no element at all gives the empty string.\<close>

definition pathJoin :: "string list \<Rightarrow> string" where
  "pathJoin elems =
     (case filter (\<lambda>e. e \<noteq> []) elems of [] \<Rightarrow> [] | es \<Rightarrow> Clean (Join es ''/''))"

text \<open>
  \<open>filepath.Rel(base, targ)\<close>: both paths are cleaned; equal paths give the single dot; a
  rooted and an unrooted path cannot be related; otherwise the common leading elements
  are dropped, every element left of the base becomes a double dot (a base element that
  is itself a double dot cannot be undone) and the elements left of the target follow.
\<close>

fun dropCommon :: "string list \<Rightarrow> string list \<Rightarrow> string list \<times> string list" where
  "dropCommon (b # bs) (t # ts) = (if b = t then dropCommon bs ts else (b # bs, t # ts))"
| "dropCommon bs ts = (bs, ts)"

definition relSegs :: "string \<Rightarrow> string list" where
  "relSegs p = filter (\<lambda>s. s \<noteq> []) (splitSlash p)"

definition Rel :: "string \<Rightarrow> string \<Rightarrow> string option" where
  "Rel basepath targpath =
     (let base0 = Clean basepath; targ = Clean targpath
      in if targ = base0 then Some ''.''
         else let base = (if base0 = ''.'' then [] else base0)
              in if HasPrefix base ''/'' \<noteq> HasPrefix targ ''/'' then None
                 else case dropCommon (relSegs base) (relSegs targ) of
                        (bs, ts) \<Rightarrow>
                          if bs \<noteq> [] \<and> hd bs = ''..'' then None
                          else Some (Join (map (\<lambda>_. ''..'') bs @ ts) ''/''))"

section \<open>Package files: ignored paths and directory listings\<close>

text \<open>
  The four patterns of \<open>patterns\<close> are regular expressions made of an optional start
  anchor and a sequence of single-character atoms: a literal character, or the class
  \<open>[^.]\<close> of every character but the dot. \<open>MatchString\<close> searches the whole string, as
  \<open>regexp.MatchString\<close> does.
\<close>

datatype atom = Lit char | NotLit char

record regexp =
  anchored :: bool
  atoms :: "atom list"

fun matchAtom :: "atom \<Rightarrow> char \<Rightarrow> bool" where
  "matchAtom (Lit a) c = (c = a)"
| "matchAtom (NotLit a) c = (c \<noteq> a)"

fun matchHere :: "atom list \<Rightarrow> string \<Rightarrow> bool" where
  "matchHere [] s = True"
| "matchHere (a # as) [] = False"
| "matchHere (a # as) (c # cs) = (matchAtom a c \<and> matchHere as cs)"

fun matchSomewhere :: "atom list \<Rightarrow> string \<Rightarrow> bool" where
  "matchSomewhere as [] = matchHere as []"
| "matchSomewhere as (c # cs) = (matchHere as (c # cs) \<or> matchSomewhere as cs)"

definition MatchString :: "regexp \<Rightarrow> string \<Rightarrow> bool" where
  "MatchString r s = (if anchored r then matchHere (atoms r) s else matchSomewhere (atoms r) s)"

definition patterns :: "regexp list" where
  "patterns =
     [\<lparr>anchored = True, atoms = [Lit CHR ''_'']\<rparr>,
      \<lparr>anchored = False, atoms = [Lit CHR ''/'', Lit CHR ''_'']\<rparr>,
      \<lparr>anchored = True, atoms = [Lit CHR ''.'', NotLit CHR ''.'']\<rparr>,
      \<lparr>anchored = False, atoms = [Lit CHR ''/'', Lit CHR ''.'', NotLit CHR ''.'']\<rparr>]"

definition Ignore :: "string \<Rightarrow> bool" where
  "Ignore path = list_ex (\<lambda>pattern. MatchString pattern path) patterns"

text \<open>
  The disk is a tree: a file with its bytes (\<open>None\<close> for a file that cannot be opened),
  or a directory with its entries in the order \<open>ioutil.ReadDir\<close> and \<open>filepath.Walk\<close>
  visit them (sorted by name), \<open>NoAccess\<close> being a directory whose listing fails.
  \<open>os.Stat\<close> resolves a path as it is written, element by element from the root of
  the tree, which is also the working directory: an empty element or a single dot stays
  in the directory, a double dot goes to its parent (the root is its own parent), a name
  must be an entry of the directory, and every element but the last must lead to a
  directory. \<open>walkSegs\<close> carries the directory reached and its ancestors.
\<close>

datatype node = File "string option" | Dir "(string \<times> node) list" | NoAccess

fun walkSegs :: "node list \<Rightarrow> string list \<Rightarrow> node option" where
  "walkSegs [] ss = None"
| "walkSegs (n # up) [] = Some n"
| "walkSegs (n # up) (s # ss) =
     (case n of
        Dir es \<Rightarrow>
          if s = [] \<or> s = ''.'' then walkSegs (n # up) ss
          else if s = ''..'' then walkSegs (if up = [] then [n] else up) ss
          else (case map_of es s of None \<Rightarrow> None | Some c \<Rightarrow> walkSegs (c # n # up) ss)
      | _ \<Rightarrow> None)"

definition Stat :: "node \<Rightarrow> string \<Rightarrow> node option" where
  "Stat fs path = (if path = [] then None else walkSegs [fs] (splitSlash path))"

definition HasFile :: "node \<Rightarrow> string \<Rightarrow> bool" where
  "HasFile fs source = (case Stat fs source of Some (File _) \<Rightarrow> True | _ \<Rightarrow> False)"

definition HasDir :: "node \<Rightarrow> string \<Rightarrow> bool" where
  "HasDir fs source =
     (case Stat fs source of Some (Dir _) \<Rightarrow> True | Some NoAccess \<Rightarrow> True | _ \<Rightarrow> False)"

text \<open>\<open>files.Read\<close>: the bytes of the file, empty when it cannot be read.\<close>

definition Read :: "node \<Rightarrow> string \<Rightarrow> string" where
  "Read fs source = (case Stat fs source of Some (File (Some b)) \<Rightarrow> b | _ \<Rightarrow> [])"

text \<open>
  \<open>files.List\<close>. The loop over the entries of a directory is \<open>listEntries\<close>; the recursive
  call on a sub-directory is \<open>listDir\<close>, which is \<open>List\<close> on a path already known to be a
  directory (its own \<open>Ignore\<close> test is kept, \<open>HasFile\<close> is false and \<open>HasDir\<close> true there).
\<close>

fun listDir :: "string \<Rightarrow> node \<Rightarrow> string list"
  and listEntries :: "string \<Rightarrow> (string \<times> node) list \<Rightarrow> string list" where
  "listDir source (Dir es) = (if Ignore source then [] else listEntries source es)"
| "listDir source (File b) = (if Ignore source then [] else [source])"
| "listDir source NoAccess = []"
| "listEntries source [] = []"
| "listEntries source (e # es) =
     (let rel = pathJoin [source, fst e]
      in if Ignore rel then listEntries source es
         else (case snd e of
                 File b \<Rightarrow> [rel]
               | n \<Rightarrow> listDir rel n) @ listEntries source es)"

definition List :: "node \<Rightarrow> string \<Rightarrow> string list" where
  "List fs source =
     (if Ignore source then []
      else if HasFile fs source then [source]
      else if \<not> HasDir fs source then []
      else case Stat fs source of Some n \<Rightarrow> listDir source n | None \<Rightarrow> [])"

section \<open>SHA-1 and the content hash\<close>

text \<open>
  \<open>crypto/sha1\<close>: the digest of a byte string (FIPS 180-1), printed by \<open>%x\<close> as forty
  lower-case hexadecimal digits. A \<open>uint32\<close> is an \<open>int\<close> kept below \<open>2 ^ 32\<close>, the
  wrap-around written out by \<open>u32\<close>.
\<close>

type_synonym uint32 = int

definition u32 :: "int \<Rightarrow> uint32" where
  "u32 x = x mod 2 ^ 32"

definition rotl :: "nat \<Rightarrow> uint32 \<Rightarrow> uint32" where
  "rotl n x = u32 (push_bit n x) OR drop_bit (32 - n) x"

fun beBytes :: "nat \<Rightarrow> int \<Rightarrow> int list" where
  "beBytes 0 v = []"
| "beBytes (Suc k) v = beBytes k (v div 256) @ [v mod 256]"

definition padding :: "string \<Rightarrow> int list" where
  "padding m =
     (let n = length m
      in map of_char m @ [128] @ replicate ((119 - n mod 64) mod 64) 0 @ beBytes 8 (8 * int n))"

definition beWord :: "int list \<Rightarrow> uint32" where
  "beWord bs = foldl (\<lambda>acc b. acc * 256 + b) 0 bs"

fun chunkWords :: "nat \<Rightarrow> int list \<Rightarrow> uint32 list" where
  "chunkWords 0 bs = []"
| "chunkWords (Suc k) bs = beWord (take 4 bs) # chunkWords k (drop 4 bs)"

fun schedule :: "nat \<Rightarrow> uint32 list \<Rightarrow> uint32 list" where
  "schedule 0 ws = ws"
| "schedule (Suc k) ws =
     (let n = length ws
      in schedule k
           (ws @ [rotl 1 (ws ! (n - 3) XOR ws ! (n - 8) XOR ws ! (n - 14) XOR ws ! (n - 16))]))"

type_synonym digest = "uint32 \<times> uint32 \<times> uint32 \<times> uint32 \<times> uint32"

fun sha1Round :: "digest \<Rightarrow> nat \<times> uint32 \<Rightarrow> digest" where
  "sha1Round (a, b, c, d, e) (i, w) =
     (let f = (if i < 20 then (b AND c) OR ((b XOR 0xFFFFFFFF) AND d)
               else if i < 40 then b XOR c XOR d
               else if i < 60 then (b AND c) OR (b AND d) OR (c AND d)
               else b XOR c XOR d);
          k = (if i < 20 then 0x5A827999 else if i < 40 then 0x6ED9EBA1
               else if i < 60 then 0x8F1BBCDC else 0xCA62C1D6)
      in (u32 (rotl 5 a + f + e + k + w), a, rotl 30 b, c, d))"

fun sha1Block :: "digest \<Rightarrow> int list \<Rightarrow> digest" where
  "sha1Block (h0, h1, h2, h3, h4) bs =
     (case foldl sha1Round (h0, h1, h2, h3, h4)
             (zip [0..<80] (schedule 64 (chunkWords 16 bs))) of
        (a, b, c, d, e) \<Rightarrow> (u32 (h0 + a), u32 (h1 + b), u32 (h2 + c), u32 (h3 + d), u32 (h4 + e)))"

fun sha1Blocks :: "nat \<Rightarrow> digest \<Rightarrow> int list \<Rightarrow> digest" where
  "sha1Blocks 0 h bs = h"
| "sha1Blocks (Suc k) h bs = sha1Blocks k (sha1Block h (take 64 bs)) (drop 64 bs)"

definition hexDigit :: "int \<Rightarrow> char" where
  "hexDigit n = ''0123456789abcdef'' ! nat n"

definition hexWord :: "uint32 \<Rightarrow> string" where
  "hexWord w = concat (map (\<lambda>b. [hexDigit (b div 16), hexDigit (b mod 16)]) (beBytes 4 w))"

definition sha1Sum :: "string \<Rightarrow> string" where
  "sha1Sum m =
     (let p = padding m
      in case sha1Blocks (length p div 64)
                (0x67452301, 0xEFCDAB89, 0x98BADCFE, 0x10325476, 0xC3D2E1F0) p of
           (a, b, c, d, e) \<Rightarrow> concat (map hexWord [a, b, c, d, e]))"

text \<open>\<open>hash\<close>: the first twelve hexadecimal digits of the SHA-1 digest of the seed.\<close>

definition hash :: "string \<Rightarrow> string" where
  "hash seed = take 12 (sha1Sum seed)"

text \<open>\<open>strconv.FormatInt(n, 10)\<close> and \<open>timestamp\<close>, for the clock reading \<open>n\<close>.\<close>

function decimal :: "int \<Rightarrow> string" where
  "decimal n = (if n < 10 then [hexDigit n] else decimal (n div 10) @ [hexDigit (n mod 10)])"
  by pat_completeness auto
termination
  by (relation "measure nat") auto

definition FormatInt :: "int \<Rightarrow> string" where
  "FormatInt n = (if n < 0 then ''-'' @ decimal (- n) else decimal n)"

definition timestamp :: "int \<Rightarrow> string" where
  "timestamp unix = FormatInt unix"

definition rooted :: "string \<Rightarrow> int \<Rightarrow> string" where
  "rooted root unix = root @ ''/'' @ hash (timestamp unix) @ ''/''"

section \<open>The asset pipeline\<close>

text \<open>
  What a call can end in besides a value: \<open>Exit\<close> is \<open>log.Fatalln\<close> (the process is
  terminated), \<open>Panic\<close> a run-time panic of the Go code.
\<close>

datatype failure = Exit string | Panic string

text \<open>
  The surroundings of the process: the disk, the clock read by \<open>time.Now\<close>, the clock
  reading at which the package was initialised (it seeds \<open>concatRoot\<close>), and the table
  behind \<open>mime.TypeByExtension\<close>.
\<close>

record world =
  disk :: node
  now :: int
  started :: int
  TypeByExtension :: "string \<Rightarrow> string"

record assetType =
  t_name :: string
  t_ext :: string
  t_html :: string
  t_proc :: "(string \<Rightarrow> string) option"

record assetCache =
  c_name :: string
  c_mime :: string
  c_time :: int
  c_paths :: "string list"
  c_bytes :: string

record assets =
  a_prod :: bool
  a_dir :: string
  a_root :: string
  a_cache :: "string \<rightharpoonup> assetCache"

definition concatRoot :: "world \<Rightarrow> string" where
  "concatRoot w = rooted ''/assets'' (started w)"

text \<open>The five asset types; the markdown renderer is a parameter of \<open>md\<close>.\<close>

definition paste :: assetType where
  "paste = \<lparr>t_name = ''paste'', t_ext = [], t_html = ''<!-- %s -->'' @ [CHR 0x0A] @ ''%s'',
            t_proc = None\<rparr>"

definition tpl :: assetType where
  "tpl = \<lparr>t_name = ''tpl'', t_ext = [],
          t_html = ''<script type=\"text/template\" id=\"%s\">%s</script>'', t_proc = None\<rparr>"

definition md :: "(string \<Rightarrow> string) \<Rightarrow> assetType" where
  "md markdown = \<lparr>t_name = ''md'', t_ext = ''.md'',
                  t_html = ''<div class=\"md\" id=\"%s\">%s</div>'', t_proc = Some markdown\<rparr>"

definition css :: assetType where
  "css = \<lparr>t_name = ''css'', t_ext = ''.css'',
          t_html = ''<link rel=\"stylesheet\" href=\"%s\">%s'', t_proc = None\<rparr>"

definition js :: assetType where
  "js = \<lparr>t_name = ''js'', t_ext = ''.js'', t_html = ''<script src=\"%s\">%s</script>'',
         t_proc = None\<rparr>"

text \<open>\<open>fmt.Sprintf\<close> for formats whose only verb is \<open>%s\<close>, with string operands.\<close>

fun Sprintf :: "string \<Rightarrow> string list \<Rightarrow> string" where
  "Sprintf [] args = []"
| "Sprintf [c] args = [c]"
| "Sprintf (c # d # cs) args =
     (if c = CHR ''%'' \<and> d = CHR ''s'' then
        (case args of
           [] \<Rightarrow> ''%!s(MISSING)'' @ Sprintf cs []
         | a # as \<Rightarrow> a @ Sprintf cs as)
      else c # Sprintf (d # cs) args)"

text \<open>
  A template hands its arguments over as \<open>[]interface{}\<close>: a string, a nested list, or
  any other value, which \<open>unpackPaths\<close> prints with \<open>%v\<close> (\<open>Other\<close> carries that text).
\<close>

datatype source = Str string | Nested "source list" | Other string

fun unpack :: "source \<Rightarrow> string list" where
  "unpack (Str s) = [s]"
| "unpack (Nested ts) = concat (map unpack ts)"
| "unpack (Other v) = [v]"

definition unpackPaths :: "source list \<Rightarrow> string list" where
  "unpackPaths sources = concat (map unpack sources)"

text \<open>\<open>prefixPath\<close>, outside Windows.\<close>

definition prefixPath :: "string \<Rightarrow> string \<Rightarrow> string" where
  "prefixPath source rel =
     (if HasPrefix source ''/'' \<and> \<not> HasPrefix rel ''/'' then ''/'' @ rel else rel)"

definition resolvePath :: "assets \<Rightarrow> node \<Rightarrow> string \<Rightarrow> string list" where
  "resolvePath a fs source =
     map (\<lambda>abs. case Rel (a_dir a) abs of Some rel \<Rightarrow> prefixPath source rel | None \<Rightarrow> abs)
       (List fs (pathJoin [a_dir a, source]))"

definition resolvePaths :: "assets \<Rightarrow> node \<Rightarrow> string list \<Rightarrow> string list" where
  "resolvePaths a fs sources = concat (map (resolvePath a fs) sources)"

text \<open>
  \<open>http.Dir(dir).Open(name)\<close> opens \<open>dir\<close> joined with the cleaned, rooted name.
  \<open>bufferFromPath\<close> appends the bytes of the file to the buffer; a name that cannot be
  opened adds nothing; a directory opens, but reading it fails, and the failure is fatal.
\<close>

definition Open :: "node \<Rightarrow> string \<Rightarrow> string \<Rightarrow> node option" where
  "Open fs dir name =
     (case Stat fs (pathJoin [if dir = [] then ''.'' else dir, Clean (''/'' @ name)]) of
        Some (File None) \<Rightarrow> None
      | Some NoAccess \<Rightarrow> None
      | r \<Rightarrow> r)"

definition bufferFromPath :: "node \<Rightarrow> string \<Rightarrow> string \<Rightarrow> string \<Rightarrow> failure + string" where
  "bufferFromPath fs dir rel buf =
     (case Open fs dir rel of
        Some (File (Some b)) \<Rightarrow> Inr (buf @ b)
      | Some (Dir es) \<Rightarrow> Inl (Exit ''is a directory'')
      | _ \<Rightarrow> Inr buf)"

fun bufferFromAll :: "node \<Rightarrow> string \<Rightarrow> string list \<Rightarrow> string \<Rightarrow> failure + string" where
  "bufferFromAll fs dir [] buf = Inr buf"
| "bufferFromAll fs dir (name # names) buf =
     (case bufferFromPath fs dir name buf of
        Inl f \<Rightarrow> Inl f
      | Inr buf' \<Rightarrow> bufferFromAll fs dir names buf')"

definition bytesFromPaths :: "assets \<Rightarrow> node \<Rightarrow> string list \<Rightarrow> failure + string" where
  "bytesFromPaths a fs paths = bufferFromAll fs (a_dir a) (resolvePaths a fs paths) []"

definition applyProc :: "assetType \<Rightarrow> string \<Rightarrow> string" where
  "applyProc t b = (case t_proc t of None \<Rightarrow> b | Some f \<Rightarrow> f b)"

text \<open>
  \<open>combosFromPaths\<close> and \<open>inlinedFromPath\<close> return the cache entry together with the
  pipeline, whose cache they may have written. The test \<open>ok && a.prod\<close> of the source
  is the lookup that only a production pipeline makes. An entry built by
  \<open>inlinedFromPath\<close> has a name and bytes only; its other fields keep their zero
  values (0 stands for the zero time).
\<close>

definition combosFromPaths ::
  "assets \<Rightarrow> world \<Rightarrow> assetType \<Rightarrow> string list \<Rightarrow> failure + assetCache \<times> assets" where
  "combosFromPaths a w t paths =
     (let name = hash (Join paths []) @ t_ext t
      in case (if a_prod a then a_cache a name else None) of
           Some cached \<Rightarrow> Inr (cached, a)
         | None \<Rightarrow>
             (case bytesFromPaths a (disk w) paths of
                Inl f \<Rightarrow> Inl f
              | Inr b \<Rightarrow>
                  let entry = \<lparr>c_name = name, c_mime = TypeByExtension w (t_ext t),
                               c_time = now w, c_paths = paths, c_bytes = applyProc t b\<rparr>
                  in Inr (entry, a\<lparr>a_cache := (a_cache a)(name \<mapsto> entry)\<rparr>)))"

definition inlinedFromPath ::
  "assets \<Rightarrow> world \<Rightarrow> assetType \<Rightarrow> string \<Rightarrow> failure + assetCache \<times> assets" where
  "inlinedFromPath a w t name =
     (case (if a_prod a then a_cache a name else None) of
        Some cached \<Rightarrow> Inr (cached, a)
      | None \<Rightarrow>
          (case bytesFromPaths a (disk w) [name] of
             Inl f \<Rightarrow> Inl f
           | Inr b \<Rightarrow>
               let entry = \<lparr>c_name = name, c_mime = [], c_time = 0, c_paths = [],
                            c_bytes = applyProc t b\<rparr>
               in Inr (entry, a\<lparr>a_cache := (a_cache a)(name \<mapsto> entry)\<rparr>)))"

text \<open>
  The handler of the bundle route: the answer is the 404 page, or what is handed to
  \<open>http.ServeContent\<close> (name, content type, modification time, bytes).
\<close>

datatype served = NotFound | Content string string int string

definition Wildcard :: "string \<Rightarrow> string" where
  "Wildcard param = (if HasPrefix param ''/'' then drop 1 param else param)"

definition assetsServeHTTP :: "assets \<Rightarrow> string \<Rightarrow> served" where
  "assetsServeHTTP a param =
     (let filename = Wildcard param
      in case a_cache a filename of
           None \<Rightarrow> NotFound
         | Some file \<Rightarrow> Content filename (c_mime file) (c_time file) (c_bytes file))"

text \<open>
  \<open>combined\<close>: the bundle is built (or reused) first; the reference to the first unpacked
  path comes after, so with no unpacked path the cache has been written when the index
  expression panics.
\<close>

definition combined ::
  "assets \<Rightarrow> world \<Rightarrow> assetType \<Rightarrow> source list \<Rightarrow> (failure + string) \<times> assets" where
  "combined a w t sources =
     (let pack = unpackPaths sources
      in case combosFromPaths a w t pack of
           Inl f \<Rightarrow> (Inl f, a)
         | Inr (file, a') \<Rightarrow>
             (let href = concatRoot w @ c_name file
              in case pack of
                   [] \<Rightarrow> (Inl (Panic ''index out of range''), a')
                 | first # rest \<Rightarrow>
                     (Inr (Sprintf (t_html t)
                             [if HasPrefix first ''/'' then pathJoin [a_root a, href]
                              else TrimPrefix href ''/'', []]), a')))"

section \<open>The template engine\<close>

text \<open>
  \<open>path.Dir\<close>, \<open>path.Base\<close> and \<open>files.Name\<close>, used by the configured layout name.
\<close>

definition pathDir :: "string \<Rightarrow> string" where
  "pathDir p = Clean (rev (dropWhile (\<lambda>c. c \<noteq> CHR ''/'') (rev p)))"

definition pathBase :: "string \<Rightarrow> string" where
  "pathBase p =
     (if p = [] then ''.''
      else let q = rev (dropWhile (\<lambda>c. c = CHR ''/'') (rev p));
               b = rev (takeWhile (\<lambda>c. c \<noteq> CHR ''/'') (rev q))
           in if b = [] then ''/'' else b)"

definition Name :: "string \<Rightarrow> string" where
  "Name source = pathBase (TrimSuffix source (Ext source))"

text \<open>
  The fields of \<open>Config\<close> that the engine and the proxy read, and their accessors;
  \<open>cfgBackend\<close> is the address of the backend as \<open>backend()\<close> returns it, with its
  final slash.
\<close>

record Config =
  cfgProd :: bool
  cfgDir :: string
  cfgLayout :: string
  cfgBackend :: string

definition config_prod :: "Config \<Rightarrow> bool" where
  "config_prod c = cfgProd c"

definition config_dir :: "Config \<Rightarrow> string" where
  "config_dir c = (if cfgDir c = [] then ''.'' else cfgDir c)"

definition config_layout :: "Config \<Rightarrow> string" where
  "config_layout c =
     (if cfgLayout c = [] then []
      else pathJoin [TrimPrefix (pathDir (cfgLayout c)) ''/'', Name (cfgLayout c)])"

definition frontendExt :: string where
  "frontendExt = ''.html''"

definition backendExt :: string where
  "backendExt = ''.tmpl''"

text \<open>
  Values decoded from JSON, and the environment \<open>Env\<close> handed to a template: a map from
  keys to values.
\<close>

datatype json = JNull | JBool bool | JNum int | JStr string | JArr "json list"
  | JObj "(string \<times> json) list"

type_synonym Env = "string \<rightharpoonup> json"

text \<open>
  A parsed template is a sequence of actions: literal text, the value of a field of the
  environment, a call of the helper \<open>yield\<close>, or the inclusion of another template of
  the set by name. The helper \<open>yield\<close> is bound either to \<open>tmpl.Yield\<close>, which returns
  the empty string, or to the closure that \<open>funcMapLayout\<close> builds, which carries the
  name and the environment it was built with. A template set, as the engine holds it
  through the template that \<open>template.New\<close> returned, has the name of that template,
  the fact whether that template itself is still the entry of its name in the set, for
  each name the parsed body, or nothing yet for a name that was created and never
  parsed, and the binding of \<open>yield\<close> that all its templates share.
\<close>

datatype action = Text string | Field string | Yield | Include string

datatype yieldFn = YieldDefault | YieldLayout string Env

record templateSet =
  ts_name :: string
  ts_handle :: bool
  ts_set :: "string \<rightharpoonup> action list option"
  ts_yield :: yieldFn

text \<open>
  The libraries the engine and the proxy call are parameters: the template parser (given
  the names of the bound helpers), the printer of a field's value, the JSON decoder and
  indenter, and the HTTP client.
\<close>

record request =
  Method :: string
  Path :: string
  RequestURI :: string
  Body :: string

record backendResponse =
  StatusCode :: nat
  ResponseBody :: "string + string"

record library =
  Parse :: "string list \<Rightarrow> string \<Rightarrow> string + action list"
  Print :: "json option \<Rightarrow> string"
  Unmarshal :: "string \<Rightarrow> string + Env"
  Indent :: "string \<Rightarrow> string + string"
  NewRequest :: "string \<Rightarrow> string \<Rightarrow> string option"
  ClientDo :: "string \<Rightarrow> string \<Rightarrow> string \<Rightarrow> string + backendResponse"

record engine =
  config :: Config
  funcs :: "string list"
  templates :: "templateSet option"

definition templateName :: "string \<Rightarrow> string" where
  "templateName path = TrimPrefix (TrimSuffix (ReplaceBackslash path) (Ext path)) ''/''"

text \<open>
  Execution of a template body. The result is the text written to the buffer and the
  error, if any, at which execution stopped. The number bounds how deep inclusions and
  calls of the layout closure may nest; \<open>None\<close> is an execution that exceeds every bound
  and never returns. The closure executes the template it names through
  \<open>engine.template\<close>, which normalises the name again, and turns an error into the
  empty string.
\<close>

fun execNodes :: "library \<Rightarrow> templateSet \<Rightarrow> nat \<Rightarrow> Env \<Rightarrow> action list \<Rightarrow> (string \<times> string option) option"
  and execNode :: "library \<Rightarrow> templateSet \<Rightarrow> nat \<Rightarrow> Env \<Rightarrow> action \<Rightarrow> (string \<times> string option) option" where
  "execNodes L S n env [] = Some ([], None)"
| "execNodes L S n env (x # xs) =
     (case execNode L S n env x of
        None \<Rightarrow> None
      | Some (out, Some err) \<Rightarrow> Some (out, Some err)
      | Some (out, None) \<Rightarrow>
          (case execNodes L S n env xs of
             None \<Rightarrow> None
           | Some (out', r) \<Rightarrow> Some (out @ out', r)))"
| "execNode L S n env (Text s) = Some (s, None)"
| "execNode L S n env (Field k) = Some (Print L (env k), None)"
| "execNode L S 0 env (Include nm) = None"
| "execNode L S (Suc m) env (Include nm) =
     (case ts_set S nm of
        None \<Rightarrow> Some ([], Some ''undefined'')
      | Some None \<Rightarrow> Some ([], Some ''incomplete template'')
      | Some (Some body) \<Rightarrow> execNodes L S m env body)"
| "execNode L S 0 env Yield =
     (case ts_yield S of YieldDefault \<Rightarrow> Some ([], None) | YieldLayout nm ev \<Rightarrow> None)"
| "execNode L S (Suc m) env Yield =
     (case ts_yield S of
        YieldDefault \<Rightarrow> Some ([], None)
      | YieldLayout nm ev \<Rightarrow>
          (case ts_set S (templateName nm) of
             Some (Some body) \<Rightarrow>
               (case execNodes L S m ev body of
                  None \<Rightarrow> None
                | Some (buf, Some err) \<Rightarrow> Some ([], None)
                | Some (buf, None) \<Rightarrow> Some (buf, None))
           | _ \<Rightarrow> Some ([], None)))"

definition ExecuteTemplate ::
  "library \<Rightarrow> templateSet \<Rightarrow> nat \<Rightarrow> string \<Rightarrow> Env \<Rightarrow> (string \<times> string option) option" where
  "ExecuteTemplate L S n name env =
     (case ts_set S name of
        None \<Rightarrow> Some ([], Some ''undefined'')
      | Some None \<Rightarrow> Some ([], Some ''incomplete template'')
      | Some (Some body) \<Rightarrow> execNodes L S n env body)"

definition template ::
  "library \<Rightarrow> templateSet \<Rightarrow> nat \<Rightarrow> string \<Rightarrow> Env \<Rightarrow> (string \<times> string option) option" where
  "template L S n file env = ExecuteTemplate L S n (templateName file) env"

text \<open>
  \<open>files.Walk\<close>: the files below the source directory in the order of
  \<open>filepath.Walk\<close>, each by its path relative to the source; a directory that cannot be
  listed, or a missing source, is an error, at which the walk stops.
\<close>

fun walkNode :: "string \<Rightarrow> node \<Rightarrow> (string + string) list"
  and walkEntries :: "string \<Rightarrow> (string \<times> node) list \<Rightarrow> (string + string) list" where
  "walkNode rel (File b) = [Inr rel]"
| "walkNode rel NoAccess = [Inl ''permission denied'']"
| "walkNode rel (Dir es) = walkEntries rel es"
| "walkEntries rel [] = []"
| "walkEntries rel (e # es) = walkNode (pathJoin [rel, fst e]) (snd e) @ walkEntries rel es"

definition Walk :: "node \<Rightarrow> string \<Rightarrow> (string + string) list" where
  "Walk fs source =
     (case Stat fs source of
        None \<Rightarrow> [Inl ''no such file or directory'']
      | Some (File b) \<Rightarrow> [Inr ''.'']
      | Some n \<Rightarrow> walkNode [] n)"

text \<open>
  \<open>unicode.IsSpace\<close> on the UTF-8 encoded text of a template: the encodings of the
  white space characters, and the texts made of them only, which \<open>bytes.TrimSpace\<close>
  empties. \<open>IsEmptyTree\<close> is \<open>parse.IsEmptyTree\<close> on a body: every node is text of
  white space.
\<close>

definition spaces :: "string list" where
  "spaces =
     [[CHR 0x09], [CHR 0x0A], [CHR 0x0B], [CHR 0x0C], [CHR 0x0D], [CHR 0x20],
      [CHR 0xC2, CHR 0x85], [CHR 0xC2, CHR 0xA0],
      [CHR 0xE1, CHR 0x9A, CHR 0x80],
      [CHR 0xE2, CHR 0x80, CHR 0x80], [CHR 0xE2, CHR 0x80, CHR 0x81],
      [CHR 0xE2, CHR 0x80, CHR 0x82], [CHR 0xE2, CHR 0x80, CHR 0x83],
      [CHR 0xE2, CHR 0x80, CHR 0x84], [CHR 0xE2, CHR 0x80, CHR 0x85],
      [CHR 0xE2, CHR 0x80, CHR 0x86], [CHR 0xE2, CHR 0x80, CHR 0x87],
      [CHR 0xE2, CHR 0x80, CHR 0x88], [CHR 0xE2, CHR 0x80, CHR 0x89],
      [CHR 0xE2, CHR 0x80, CHR 0x8A], [CHR 0xE2, CHR 0x80, CHR 0xA8],
      [CHR 0xE2, CHR 0x80, CHR 0xA9], [CHR 0xE2, CHR 0x80, CHR 0xAF],
      [CHR 0xE2, CHR 0x81, CHR 0x9F], [CHR 0xE3, CHR 0x80, CHR 0x80]]"

definition spaceLen :: "string \<Rightarrow> nat" where
  "spaceLen s =
     (if List.member spaces (take 1 s) then 1
      else if List.member spaces (take 2 s) then 2
      else if List.member spaces (take 3 s) then 3
      else 0)"

function allSpace :: "string \<Rightarrow> bool" where
  "allSpace s =
     (if s = [] then True
      else if spaceLen s = 0 then False
      else allSpace (drop (spaceLen s) s))"
  by pat_completeness auto
termination
  by (relation "measure length") auto

fun emptyNode :: "action \<Rightarrow> bool" where
  "emptyNode (Text s) = allSpace s"
| "emptyNode a = False"

definition IsEmptyTree :: "action list \<Rightarrow> bool" where
  "IsEmptyTree body = list_all emptyNode body"

text \<open>
  \<open>template.New(name)\<close> starts a set whose only name, that of the template returned,
  has no body. \<open>compileTemplate\<close> binds the helpers (\<open>yield\<close> is \<open>tmpl.Yield\<close> again),
  creates the name in the set and parses the file into it.

  Creating a name that the set already holds resets the template that held it. When
  that template is the one through which the engine holds the set (the file is named
  as the site directory is), the engine is left with a fresh set of that one name,
  without a body, and the template created, with whatever is parsed into it, stays
  behind in the set that the engine has lost. Otherwise the new template takes the
  place of the old one, and a body that is an empty tree does not replace a body parsed
  under that name before.
\<close>

definition New :: "string \<Rightarrow> templateSet" where
  "New name =
     \<lparr>ts_name = name, ts_handle = True, ts_set = [name \<mapsto> None], ts_yield = YieldDefault\<rparr>"

definition compileTemplate ::
  "library \<Rightarrow> engine \<Rightarrow> node \<Rightarrow> templateSet \<Rightarrow> string \<Rightarrow> templateSet \<times> string option" where
  "compileTemplate L e fs S rel =
     (let name = templateName rel;
          data = Read fs (pathJoin [config_dir (config e), rel])
      in if ts_handle S \<and> name = ts_name S then
           (let reset = \<lparr>ts_name = name, ts_handle = False, ts_set = [name \<mapsto> None],
                          ts_yield = YieldDefault\<rparr>
            in case Parse L (funcs e) data of
                 Inl err \<Rightarrow> (reset, Some err)
               | Inr body \<Rightarrow> (reset, None))
         else
           (let tmpl = S\<lparr>ts_set := (ts_set S)(name \<mapsto> None), ts_yield := YieldDefault\<rparr>
            in case Parse L (funcs e) data of
                 Inl err \<Rightarrow> (tmpl, Some err)
               | Inr body \<Rightarrow>
                   (tmpl\<lparr>ts_set := (ts_set S)
                            (name \<mapsto> (case ts_set S name of
                                        Some (Some old) \<Rightarrow> Some (if IsEmptyTree body then old else body)
                                      | _ \<Rightarrow> Some body))\<rparr>, None)))"

fun compileWalk ::
  "library \<Rightarrow> engine \<Rightarrow> node \<Rightarrow> templateSet \<Rightarrow> (string + string) list \<Rightarrow> templateSet \<times> string option" where
  "compileWalk L e fs S [] = (S, None)"
| "compileWalk L e fs S (Inl err # visits) = (S, Some err)"
| "compileWalk L e fs S (Inr rel # visits) =
     (if Ext rel \<noteq> frontendExt \<and> Ext rel \<noteq> backendExt then compileWalk L e fs S visits
      else case compileTemplate L e fs S rel of
             (S', Some err) \<Rightarrow> (S', Some err)
           | (S', None) \<Rightarrow> compileWalk L e fs S' visits)"

definition compileTemplates :: "library \<Rightarrow> engine \<Rightarrow> node \<Rightarrow> engine \<times> string option" where
  "compileTemplates L e fs =
     (case compileWalk L e fs (New (config_dir (config e))) (Walk fs (config_dir (config e))) of
        (S, err) \<Rightarrow> (e\<lparr>templates := Some S\<rparr>, err))"

definition funcMapLayout :: "templateSet \<Rightarrow> string \<Rightarrow> Env \<Rightarrow> templateSet" where
  "funcMapLayout S name env =
     (case ts_set S name of
        None \<Rightarrow> S
      | Some tmpl \<Rightarrow> S\<lparr>ts_yield := YieldLayout name env\<rparr>)"

text \<open>\<open>funcMap\<close>: the helpers are merged and the compiled set is dropped.\<close>

definition funcMap :: "engine \<Rightarrow> string list \<Rightarrow> engine" where
  "funcMap e names = e\<lparr>funcs := List.union (funcs e) names, templates := None\<rparr>"

text \<open>
  \<open>execute\<close> returns the buffer and the error of the Go function (no buffer, written
  here as the empty one, when compilation fails), or \<open>None\<close> when execution never
  returns, together with the engine, whose set it may have replaced or rebound.
\<close>

definition execute ::
  "library \<Rightarrow> engine \<Rightarrow> node \<Rightarrow> nat \<Rightarrow> string \<Rightarrow> Env \<Rightarrow> (string \<times> string option) option \<times> engine" where
  "execute L e fs n file env =
     (case (if templates e = None \<or> \<not> config_prod (config e) then compileTemplates L e fs
            else (e, None)) of
        (e1, Some err) \<Rightarrow> (Some ([], Some err), e1)
      | (e1, None) \<Rightarrow>
          (case templates e1 of
             None \<Rightarrow> (Some ([], Some ''nil template set''), e1)
           | Some S \<Rightarrow>
               if config_layout (config e1) \<noteq> [] then
                 (let S' = funcMapLayout S (templateName file) env
                  in (template L S' n (config_layout (config e1)) env, e1\<lparr>templates := Some S'\<rparr>))
               else (template L S n file env, e1)))"

text \<open>\<open>createEnv\<close>; the decoded configuration files are the parameter \<open>cfg\<close>.\<close>

definition createEnv :: "engine \<Rightarrow> json \<Rightarrow> Env \<Rightarrow> Env" where
  "createEnv e cfg data =
     [''prod'' \<mapsto> JBool (config_prod (config e)), ''config'' \<mapsto> cfg] ++ data"

text \<open>
  What a handler writes: the status, the content type it sets if any, and the body.
\<close>

record response =
  status :: nat
  contentType :: "string option"
  body :: string

definition StatusOK :: nat where
  "StatusOK = 200"

definition httpError :: "string \<Rightarrow> nat \<Rightarrow> response" where
  "httpError msg code =
     \<lparr>status = code, contentType = Some ''text/plain; charset=utf-8'', body = msg @ [CHR 0x0A]\<rparr>"

definition http404 :: response where
  "http404 = httpError ''404 Not Found'' 404"

definition contentTypeVal :: string where
  "contentTypeVal = ''text/html; charset=UTF-8''"

text \<open>\<open>respond\<close>, for a client that accepts what is written to it.\<close>

definition respond ::
  "library \<Rightarrow> engine \<Rightarrow> node \<Rightarrow> nat \<Rightarrow> json \<Rightarrow> nat \<Rightarrow> string \<Rightarrow> Env \<Rightarrow> response option \<times> engine" where
  "respond L e fs n cfg status' file data =
     (let env = createEnv e cfg data
      in case execute L e fs n file env of
           (None, e') \<Rightarrow> (None, e')
         | (Some (out, Some err), e') \<Rightarrow> (Some http404, e')
         | (Some (out, None), e') \<Rightarrow>
             (Some \<lparr>status = StatusOK, contentType = Some contentTypeVal, body = out\<rparr>, e'))"

definition skipFile :: "engine \<Rightarrow> node \<Rightarrow> string \<Rightarrow> bool" where
  "skipFile e fs file = (Open fs (config_dir (config e)) file = None)"

section \<open>The proxy\<close>

text \<open>
  \<open>decorate\<close> returns the error of the Go function, or the response it wrote (closing
  the body of the backend's response succeeds). \<open>fail\<close> logs with \<open>log.Fatalln\<close>, which
  ends the process, so the call of \<open>next\<close> that follows it is never reached.
\<close>

definition decorateJSON :: "library \<Rightarrow> backendResponse \<Rightarrow> string \<Rightarrow> string + response" where
  "decorateJSON L res body' =
     (case Indent L body' of
        Inl err \<Rightarrow> Inl err
      | Inr nice \<Rightarrow> Inr \<lparr>status = StatusCode res, contentType = None, body = nice\<rparr>)"

definition decorate ::
  "library \<Rightarrow> engine \<Rightarrow> node \<Rightarrow> nat \<Rightarrow> json \<Rightarrow> request \<Rightarrow> backendResponse
     \<Rightarrow> (string + response) option \<times> engine" where
  "decorate L e fs n cfg r res =
     (case ResponseBody res of
        Inl err \<Rightarrow> (Some (Inl err), e)
      | Inr body' \<Rightarrow>
          (let path = TrimPrefix (Path r) ''/'';
               base = TrimSuffix path (Ext path);
               tmpl = base @ backendExt
           in if skipFile e fs tmpl then (Some (decorateJSON L res body'), e)
              else case Unmarshal L body' of
                     Inl err \<Rightarrow> (Some (Inl err), e)
                   | Inr data \<Rightarrow>
                       (case respond L e fs n cfg (StatusCode res) tmpl data of
                          (None, e') \<Rightarrow> (None, e')
                        | (Some written, e') \<Rightarrow> (Some (Inr written), e'))))"

definition fail :: "string \<Rightarrow> failure + response" where
  "fail err = Inl (Exit err)"

definition proxyServeHTTP ::
  "library \<Rightarrow> engine \<Rightarrow> node \<Rightarrow> nat \<Rightarrow> json \<Rightarrow> request \<Rightarrow> (failure + response) option \<times> engine" where
  "proxyServeHTTP L e fs n cfg r =
     (let url = cfgBackend (config e) @ TrimPrefix (RequestURI r) ''/''
      in case NewRequest L (Method r) url of
           Some err \<Rightarrow> (Some (fail err), e)
         | None \<Rightarrow>
             (case ClientDo L (Method r) url (Body r) of
                Inl err \<Rightarrow> (Some (fail err), e)
              | Inr res \<Rightarrow>
                  (case decorate L e fs n cfg r res of
                     (None, e') \<Rightarrow> (None, e')
                   | (Some (Inl err), e') \<Rightarrow> (Some (fail err), e')
                   | (Some (Inr written), e') \<Rightarrow> (Some (Inr written), e'))))"

section \<open>Auxiliary notions and example inputs\<close>

text \<open>What one resolved name adds to a bundle: the bytes of the file it opens, if any.\<close>

definition fileBytes :: "node \<Rightarrow> string \<Rightarrow> string \<Rightarrow> string" where
  "fileBytes fs dir name = (case Open fs dir name of Some (File (Some b)) \<Rightarrow> b | _ \<Rightarrow> [])"

text \<open>
  A disk with a site directory \<open>site\<close>: scripts under \<open>site/js\<close>, among them a hidden
  file, a file whose name starts with two dots and a directory whose name starts with an
  underscore; and, beside the site directory, a directory \<open>x\<close> whose file \<open>f\<close> has a
  directory as its namesake below \<open>site\<close>.
\<close>

definition exampleDisk :: node where
  "exampleDisk =
     Dir [(''site'',
           Dir [(''js'',
                 Dir [(''..x.js'', File (Some ''X'')),
                      (''.h.js'', File (Some ''H'')),
                      (''_p'', Dir [(''q.js'', File (Some ''Q''))]),
                      (''a.js'', File (Some ''A'')),
                      (''lib'', Dir [(''b.js'', File (Some ''B''))])]),
                (''x'', Dir [(''f'', Dir [])])]),
          (''x'', Dir [(''f'', File (Some ''F''))])]"

definition exampleWorld :: world where
  "exampleWorld = \<lparr>disk = exampleDisk, now = 1700000000, started = 1600000000,
                    TypeByExtension = (\<lambda>e. if e = ''.js'' then ''text/javascript'' else [])\<rparr>"

definition exampleAssets :: "bool \<Rightarrow> assets" where
  "exampleAssets p = \<lparr>a_prod = p, a_dir = ''site'', a_root = [], a_cache = Map.empty\<rparr>"

text \<open>
  A pipeline whose cache already holds an entry under the key \<open>js/a.js\<close>, with bytes
  that differ from the file on the example disk.
\<close>

definition staleEntry :: assetCache where
  "staleEntry = \<lparr>c_name = ''js/a.js'', c_mime = [], c_time = 0, c_paths = [], c_bytes = ''stale''\<rparr>"

definition cachedAssets :: "bool \<Rightarrow> assets" where
  "cachedAssets p =
     \<lparr>a_prod = p, a_dir = ''site'', a_root = [], a_cache = [''js/a.js'' \<mapsto> staleEntry]\<rparr>"

text \<open>
  \<open>newEngine\<close> starts from the helpers of package \<open>tmpl\<close> and no compiled set.
\<close>

definition Funcs :: "string list" where
  "Funcs = [''join'', ''noescape'', ''slug'', ''title'', ''when'', ''yield'']"

definition newEngine :: "Config \<Rightarrow> engine" where
  "newEngine c = \<lparr>config = c, funcs = Funcs, templates = None\<rparr>"

text \<open>\<open>Lookup\<close> in the set of an engine.\<close>

definition Lookup :: "engine \<Rightarrow> string \<Rightarrow> action list option option" where
  "Lookup e name = (case templates e of None \<Rightarrow> None | Some S \<Rightarrow> ts_set S name)"

text \<open>
  An instance of the libraries, defined on the few inputs of the examples: a parser
  that rejects an unclosed action, a decoder that accepts one object, and a backend that
  answers two paths.
\<close>

definition exampleLibrary :: library where
  "exampleLibrary =
     \<lparr>Parse = (\<lambda>names src.
         if src = ''{{'' then Inl ''unclosed action''
         else if src = ''[{{yield}}]'' then Inr [Text ''['', Yield, Text '']'']
         else if src = ''<b>{{.name}}</b>'' then Inr [Text ''<b>'', Field ''name'', Text ''</b>'']
         else Inr [Text src]),
      Print = (\<lambda>v. case v of Some (JStr s) \<Rightarrow> s | _ \<Rightarrow> []),
      Unmarshal = (\<lambda>b. if b = ''{\"name\":\"x\"}'' then Inr [''name'' \<mapsto> JStr ''x'']
                         else Inl ''invalid character''),
      Indent = (\<lambda>b. if b = ''{\"a\":1}'' then Inr (''{'' @ [CHR 0x0A] @ ''  \"a\": 1'' @ [CHR 0x0A] @ ''}'')
                      else Inl ''invalid character''),
      NewRequest = (\<lambda>m u. None),
      ClientDo = (\<lambda>m u b.
         if u = ''http://api/widget'' then Inr \<lparr>StatusCode = 201, ResponseBody = Inr ''{\"name\":\"x\"}''\<rparr>
         else if u = ''http://api/report'' then Inr \<lparr>StatusCode = 200, ResponseBody = Inr ''<html>''\<rparr>
         else Inl ''connection refused'')\<rparr>"

definition exampleConfig :: "bool \<Rightarrow> string \<Rightarrow> Config" where
  "exampleConfig p l = \<lparr>cfgProd = p, cfgDir = ''site'', cfgLayout = l, cfgBackend = ''http://api/''\<rparr>"

text \<open>
  A site with a layout, two pages (the name of one has a dot of its own) and two backend
  templates; and a site of three pages in two states, the second page well-formed or not.
\<close>

definition siteDisk :: node where
  "siteDisk =
     Dir [(''site'',
           Dir [(''index.en.html'', File (Some ''Hello'')),
                (''layout.html'', File (Some ''[{{yield}}]'')),
                (''page.html'', File (Some ''Page'')),
                (''report.tmpl'', File (Some ''Report'')),
                (''widget.tmpl'', File (Some ''<b>{{.name}}</b>''))])]"

definition pagesDisk :: "string \<Rightarrow> node" where
  "pagesDisk second =
     Dir [(''site'',
           Dir [(''a.html'', File (Some ''A'')),
                (''b.html'', File (Some second)),
                (''c.html'', File (Some ''C''))])]"

definition exampleRequest :: "string \<Rightarrow> request" where
  "exampleRequest p = \<lparr>Method = ''GET'', Path = p, RequestURI = p, Body = []\<rparr>"

text \<open>
  A run of the engine: renders, each against the disk as it is at that moment, and
  registrations of helpers, one after the other.
\<close>

datatype call = Render node string Env | RegisterFunctions "string list"

fun isRender :: "call \<Rightarrow> bool" where
  "isRender (Render fs file env) = True"
| "isRender (RegisterFunctions names) = False"

fun run :: "library \<Rightarrow> nat \<Rightarrow> engine \<Rightarrow> call list \<Rightarrow> engine" where
  "run L n e [] = e"
| "run L n e (Render fs file env # cs) = run L n (snd (execute L e fs n file env)) cs"
| "run L n e (RegisterFunctions names # cs) = run L n (funcMap e names) cs"

text \<open>
  A site in which a page is named as the site directory is, after a well-formed page
  and with a malformed body.
\<close>

definition ownNameDisk :: node where
  "ownNameDisk =
     Dir [(''site'',
           Dir [(''a.html'', File (Some ''A'')),
                (''site.html'', File (Some ''{{''))])]"

text \<open>The engine after a development-mode render of the three well-formed pages.\<close>

definition compiledEngine :: engine where
  "compiledEngine =
     snd (execute exampleLibrary (newEngine (exampleConfig False [])) (pagesDisk ''B'') 5
            ''/a.html'' Map.empty)"

text \<open>
  A path element that the patterns of \<open>Ignore\<close> recognise: one that starts with an
  underscore, or with a dot that a character other than a dot follows.
\<close>

definition hidden :: "string \<Rightarrow> bool" where
  "hidden seg = (matchHere [Lit CHR ''_''] seg \<or> matchHere [Lit CHR ''.'', NotLit CHR ''.''] seg)"

section \<open>Properties of the asset pipeline\<close>

subsection \<open>The digest\<close>

text \<open>The digests of the empty string and of \<open>abc\<close>, as FIPS 180-1 gives them.\<close>

lemma sha1Sum_empty: "sha1Sum [] = ''da39a3ee5e6b4b0d3255bfef95601890afd80709''"
  by code_simp

lemma sha1Sum_abc: "sha1Sum ''abc'' = ''a9993e364706816aba3e25717850c26c9cd0d89d''"
  by code_simp


subsection \<open>Reading the resolved files\<close>

lemma bufferFromAll_Inr:
  "bufferFromAll fs dir names buf = Inr r \<Longrightarrow> r = buf @ concat (map (fileBytes fs dir) names)"
proof (induction names arbitrary: buf)
  case Nil
  then show ?case by simp
next
  case (Cons n ns)
  from Cons.prems obtain buf' where
    b: "bufferFromPath fs dir n buf = Inr buf'" and r: "bufferFromAll fs dir ns buf' = Inr r"
    by (auto split: sum.splits)
  from b have "buf' = buf @ fileBytes fs dir n"
    by (auto simp: bufferFromPath_def fileBytes_def split: option.splits node.splits)
  with Cons.IH [OF r] show ?case by simp
qed

lemma bufferFromAll_Inl:
  "bufferFromAll fs dir names buf = Inl f \<Longrightarrow> f = Exit ''is a directory''"
proof (induction names arbitrary: buf)
  case Nil
  then show ?case by simp
next
  case (Cons n ns)
  show ?case
  proof (cases "bufferFromPath fs dir n buf")
    case (Inl g)
    with Cons.prems have "f = g" by simp
    moreover from Inl have "g = Exit ''is a directory''"
      by (auto simp: bufferFromPath_def split: option.splits node.splits)
    ultimately show ?thesis by simp
  next
    case (Inr buf')
    with Cons.prems have "bufferFromAll fs dir ns buf' = Inl f" by simp
    then show ?thesis by (rule Cons.IH)
  qed
qed

lemma combosFromPaths_Inl:
  "combosFromPaths a w t paths = Inl f \<Longrightarrow> f = Exit ''is a directory''"
  by (auto simp: combosFromPaths_def bytesFromPaths_def Let_def
      split: option.splits sum.splits dest: bufferFromAll_Inl)

lemma combosFromPaths_Nil: "\<exists>entry a'. combosFromPaths a w t [] = Inr (entry, a')"
  by (simp add: combosFromPaths_def bytesFromPaths_def resolvePaths_def Let_def split: option.splits)

lemma combosFromPaths_Inr:
  "bytesFromPaths a (disk w) paths = Inr b \<Longrightarrow> \<exists>entry a'. combosFromPaths a w t paths = Inr (entry, a')"
  by (simp add: combosFromPaths_def Let_def split: option.splits)

subsection \<open>The first unpacked path\<close>

text \<open>
  Claim C10, as amended. \<open>combined\<close> reads the first element of the unpacked reference
  list. Whenever the arguments unpack to no path at all (the empty argument list, and
  also a non-empty one that holds only empty nested lists) the index expression panics;
  whenever they unpack to at least one path it does not panic, and it returns a fragment
  provided that reading the resolved files does not end the process.
\<close>

theorem combined_first_path:
  "(unpackPaths sources = [] \<longrightarrow> fst (combined a w t sources) = Inl (Panic ''index out of range''))
   \<and> (unpackPaths sources \<noteq> [] \<longrightarrow> fst (combined a w t sources) \<noteq> Inl (Panic ''index out of range''))
   \<and> (unpackPaths sources \<noteq> [] \<and> bytesFromPaths a (disk w) (unpackPaths sources) = Inr b
        \<longrightarrow> (\<exists>html. fst (combined a w t sources) = Inr html))"
proof (intro conjI impI)
  assume e: "unpackPaths sources = []"
  obtain entry a' where "combosFromPaths a w t [] = Inr (entry, a')"
    using combosFromPaths_Nil by blast
  with e show "fst (combined a w t sources) = Inl (Panic ''index out of range'')"
    by (simp add: combined_def)
next
  assume ne: "unpackPaths sources \<noteq> []"
  then obtain p ps where pk: "unpackPaths sources = p # ps"
    by (cases "unpackPaths sources") auto
  show "fst (combined a w t sources) \<noteq> Inl (Panic ''index out of range'')"
  proof (cases "combosFromPaths a w t (p # ps)")
    case (Inl f)
    then have "f = Exit ''is a directory''" by (rule combosFromPaths_Inl)
    with Inl pk show ?thesis by (simp add: combined_def)
  next
    case (Inr r)
    with pk show ?thesis by (simp add: combined_def Let_def split: prod.splits)
  qed
next
  assume h: "unpackPaths sources \<noteq> [] \<and> bytesFromPaths a (disk w) (unpackPaths sources) = Inr b"
  then obtain p ps where pk: "unpackPaths sources = p # ps"
    by (cases "unpackPaths sources") auto
  from h obtain entry a' where "combosFromPaths a w t (unpackPaths sources) = Inr (entry, a')"
    using combosFromPaths_Inr by blast
  with pk show "\<exists>html. fst (combined a w t sources) = Inr html"
    by (simp add: combined_def Let_def)
qed

theorem combined_first_path_witness:
  "unpackPaths [Str ''js''] \<noteq> []
   \<and> bytesFromPaths (exampleAssets True) (disk exampleWorld) (unpackPaths [Str ''js'']) = Inr ''XAB''
   \<and> (\<exists>html. fst (combined (exampleAssets True) exampleWorld js [Str ''js'']) = Inr html)
   \<and> unpackPaths [] = []
   \<and> fst (combined (exampleAssets True) exampleWorld js []) = Inl (Panic ''index out of range'')"
proof -
  have 1: "unpackPaths [Str ''js''] \<noteq> []" by (simp add: unpackPaths_def)
  have 2: "bytesFromPaths (exampleAssets True) (disk exampleWorld) (unpackPaths [Str ''js'']) = Inr ''XAB''"
    by code_simp
  have 3: "unpackPaths [] = []" by (simp add: unpackPaths_def)
  show ?thesis
    using 1 2 3
      combined_first_path [of "[Str ''js'']" "exampleAssets True" exampleWorld js "''XAB''"]
      combined_first_path [of "[]" "exampleAssets True" exampleWorld js "''XAB''"]
    by blast
qed

text \<open>
  The claim as stated fails: a non-empty argument list whose only element is an empty
  nested list panics, and a non-empty list of one path ends the process when that path
  resolves to a name that opens a directory.
\<close>

theorem combined_nested_empty_counterexample:
  "[Nested []] \<noteq> []
   \<and> fst (combined (exampleAssets True) exampleWorld js [Nested []]) = Inl (Panic ''index out of range'')
   \<and> [Str ''../x''] \<noteq> []
   \<and> fst (combined (exampleAssets True) exampleWorld js [Str ''../x'']) = Inl (Exit ''is a directory'')"
  by code_simp


lemma resolvePath_cache:
  "resolvePath (a\<lparr>a_cache := c\<rparr>) fs = resolvePath a fs"
  by (rule ext) (simp add: resolvePath_def)

lemma bytesFromPaths_cache:
  "bytesFromPaths (a\<lparr>a_cache := c\<rparr>) fs paths = bytesFromPaths a fs paths"
  by (simp add: bytesFromPaths_def resolvePaths_def resolvePath_cache)

lemma bytesFromPaths_concat:
  "bytesFromPaths a fs paths = Inr b \<Longrightarrow>
   b = concat (map (fileBytes fs (a_dir a)) (resolvePaths a fs paths))"
  unfolding bytesFromPaths_def by (drule bufferFromAll_Inr) simp

lemma concatRoot_started: "started w' = started w \<Longrightarrow> concatRoot w' = concatRoot w"
  by (simp add: concatRoot_def)

subsection \<open>The bundle of \<open>combined\<close>\<close>

text \<open>
  Claim C6, as amended. When \<open>combined\<close> returns a fragment, the cache holds one bundle
  entry under the key made of the hash of the concatenated unpacked references (the
  references as written, not the paths they resolve to) and the extension of the asset
  type, and the fragment refers to that entry by its name. A production pipeline that
  already holds an entry under the key reuses it; otherwise the entry is named by the
  key and its payload is the concatenation of the bytes of all resolved files, in the
  order of resolution, run through the processor of the type once, as a whole.
\<close>

theorem combined_bundle:
  assumes "fst (combined a w t sources) = Inr html"
  shows "\<exists>entry first rest.
           unpackPaths sources = first # rest
         \<and> a_cache (snd (combined a w t sources)) (hash (Join (unpackPaths sources) []) @ t_ext t)
             = Some entry
         \<and> html = Sprintf (t_html t)
                    [if HasPrefix first ''/'' then pathJoin [a_root a, concatRoot w @ c_name entry]
                     else TrimPrefix (concatRoot w @ c_name entry) ''/'', []]
         \<and> (if a_prod a \<and> a_cache a (hash (Join (unpackPaths sources) []) @ t_ext t) \<noteq> None
             then a_cache a (hash (Join (unpackPaths sources) []) @ t_ext t) = Some entry
             else c_name entry = hash (Join (unpackPaths sources) []) @ t_ext t
                \<and> c_bytes entry =
                    applyProc t (concat (map (fileBytes (disk w) (a_dir a))
                                           (resolvePaths a (disk w) (unpackPaths sources)))))"
proof -
  let ?pack = "unpackPaths sources"
  let ?key = "hash (Join ?pack []) @ t_ext t"
  from assms obtain entry a' where c: "combosFromPaths a w t ?pack = Inr (entry, a')"
    by (auto simp: combined_def Let_def split: sum.splits)
  from assms c obtain first rest where pk: "?pack = first # rest"
    by (cases ?pack) (auto simp: combined_def Let_def)
  from assms c pk have html: "html = Sprintf (t_html t)
      [if HasPrefix first ''/'' then pathJoin [a_root a, concatRoot w @ c_name entry]
       else TrimPrefix (concatRoot w @ c_name entry) ''/'', []]"
    by (auto simp: combined_def Let_def)
  from c pk have snd: "snd (combined a w t sources) = a'"
    by (simp add: combined_def Let_def)
  show ?thesis
  proof (cases "a_prod a \<and> a_cache a ?key \<noteq> None")
    case True
    with c have "a_cache a ?key = Some entry" "a' = a"
      by (auto simp: combosFromPaths_def Let_def)
    with True pk html snd show ?thesis by auto
  next
    case False
    with c obtain b where b: "bytesFromPaths a (disk w) ?pack = Inr b"
      and e: "c_name entry = ?key" "c_bytes entry = applyProc t b" "a_cache a' ?key = Some entry"
      by (auto simp: combosFromPaths_def Let_def split: sum.splits if_splits option.splits)
    from b have "b = concat (map (fileBytes (disk w) (a_dir a)) (resolvePaths a (disk w) ?pack))"
      by (rule bytesFromPaths_concat)
    with False pk html snd e show ?thesis by auto
  qed
qed

theorem combined_bundle_witness:
  "fst (combined (exampleAssets True) exampleWorld js [Str ''js/lib'', Str ''js/a.js''])
     = Inr ''<script src=\"assets/36357d494533/0ff0e6cb59d7.js\"></script>''
   \<and> (\<exists>entry.
         a_cache (snd (combined (exampleAssets True) exampleWorld js [Str ''js/lib'', Str ''js/a.js'']))
           ''0ff0e6cb59d7.js'' = Some entry
       \<and> c_name entry = ''0ff0e6cb59d7.js'' \<and> c_bytes entry = ''BA'')"
proof -
  let ?src = "[Str ''js/lib'', Str ''js/a.js'']"
  have h: "fst (combined (exampleAssets True) exampleWorld js ?src)
     = Inr ''<script src=\"assets/36357d494533/0ff0e6cb59d7.js\"></script>''"
    by code_simp
  have k: "hash (Join (unpackPaths ?src) []) @ t_ext js = ''0ff0e6cb59d7.js''"
    by code_simp
  have p: "a_prod (exampleAssets True) \<and> a_cache (exampleAssets True) ''0ff0e6cb59d7.js'' = None"
    by (simp add: exampleAssets_def)
  have b: "applyProc js (concat (map (fileBytes (disk exampleWorld) (a_dir (exampleAssets True)))
             (resolvePaths (exampleAssets True) (disk exampleWorld) (unpackPaths ?src)))) = ''BA''"
    by code_simp
  from combined_bundle [OF h] h k p b show ?thesis
    by auto
qed

text \<open>
  The claim as stated fails: for the reference \<open>js/lib\<close>, which resolves to the one
  path \<open>js/lib/b.js\<close>, no entry is made under the hash of the resolved path list; the
  bundle is cached, and linked, under the hash of the reference itself.
\<close>

theorem combined_key_counterexample:
  "resolvePaths (exampleAssets True) (disk exampleWorld) (unpackPaths [Str ''js/lib'']) = [''js/lib/b.js'']
   \<and> hash (Join [''js/lib/b.js''] []) @ t_ext js = ''e7cf03ed8ec8.js''
   \<and> a_cache (snd (combined (exampleAssets True) exampleWorld js [Str ''js/lib''])) ''e7cf03ed8ec8.js'' = None
   \<and> hash (Join (unpackPaths [Str ''js/lib'']) []) @ t_ext js = ''e70f791e5a99.js''
   \<and> map_option c_bytes
        (a_cache (snd (combined (exampleAssets True) exampleWorld js [Str ''js/lib''])) ''e70f791e5a99.js'')
      = Some ''B''
   \<and> fst (combined (exampleAssets True) exampleWorld js [Str ''js/lib''])
      = Inr ''<script src=\"assets/36357d494533/e70f791e5a99.js\"></script>''"
  by code_simp

lemma combosFromPaths_cache_dev:
  "\<not> a_prod a \<Longrightarrow>
   map_sum id fst (combosFromPaths (a\<lparr>a_cache := c\<rparr>) w t paths)
   = map_sum id fst (combosFromPaths a w t paths)"
  by (simp add: combosFromPaths_def Let_def bytesFromPaths_cache split: sum.splits)

lemma inlinedFromPath_cache_dev:
  "\<not> a_prod a \<Longrightarrow>
   map_sum id fst (inlinedFromPath (a\<lparr>a_cache := c\<rparr>) w t name)
   = map_sum id fst (inlinedFromPath a w t name)"
  by (simp add: inlinedFromPath_def Let_def bytesFromPaths_cache split: sum.splits)

subsection \<open>Lookups in the asset cache\<close>

text \<open>
  Claim C4, as amended. For the two lookups that build entries, \<open>inlinedFromPath\<close>
  (per-file entries) and \<open>combosFromPaths\<close> (bundle entries): in production mode an
  existing entry for the key is returned as it is, whatever the disk holds, and the
  cache is left alone; in development mode the entry returned does not depend on the
  cache, it is rebuilt from the bytes read from the disk, and it is written into the
  cache under the key. The lookup of the bundle route, \<open>ServeHTTP\<close>, answers with the
  cached entry in either mode and never rebuilds it.
\<close>

theorem asset_cache_lookup:
  "(a_prod a \<and> a_cache a name = Some e \<longrightarrow> inlinedFromPath a w t name = Inr (e, a))
   \<and> (a_prod a \<and> a_cache a (hash (Join paths []) @ t_ext t) = Some e
        \<longrightarrow> combosFromPaths a w t paths = Inr (e, a))
   \<and> (\<not> a_prod a \<longrightarrow>
         map_sum id fst (inlinedFromPath (a\<lparr>a_cache := c\<rparr>) w t name)
           = map_sum id fst (inlinedFromPath a w t name)
       \<and> map_sum id fst (combosFromPaths (a\<lparr>a_cache := c\<rparr>) w t paths)
           = map_sum id fst (combosFromPaths a w t paths))
   \<and> (\<not> a_prod a \<and> inlinedFromPath a w t name = Inr (e1, a1) \<longrightarrow>
         a1 = a\<lparr>a_cache := (a_cache a)(name \<mapsto> e1)\<rparr>
       \<and> (\<exists>b. bytesFromPaths a (disk w) [name] = Inr b \<and> c_bytes e1 = applyProc t b))
   \<and> (\<not> a_prod a \<and> combosFromPaths a w t paths = Inr (e2, a2) \<longrightarrow>
         a2 = a\<lparr>a_cache := (a_cache a)(hash (Join paths []) @ t_ext t \<mapsto> e2)\<rparr>
       \<and> (\<exists>b. bytesFromPaths a (disk w) paths = Inr b \<and> c_bytes e2 = applyProc t b))
   \<and> (a_cache a (Wildcard param) = Some e3 \<longrightarrow>
         assetsServeHTTP a param = Content (Wildcard param) (c_mime e3) (c_time e3) (c_bytes e3))"
proof (intro conjI impI)
  assume "a_prod a \<and> a_cache a name = Some e"
  then show "inlinedFromPath a w t name = Inr (e, a)"
    by (simp add: inlinedFromPath_def)
next
  assume "a_prod a \<and> a_cache a (hash (Join paths []) @ t_ext t) = Some e"
  then show "combosFromPaths a w t paths = Inr (e, a)"
    by (simp add: combosFromPaths_def Let_def)
next
  assume "\<not> a_prod a"
  then show "map_sum id fst (inlinedFromPath (a\<lparr>a_cache := c\<rparr>) w t name)
           = map_sum id fst (inlinedFromPath a w t name)"
    by (rule inlinedFromPath_cache_dev)
next
  assume "\<not> a_prod a"
  then show "map_sum id fst (combosFromPaths (a\<lparr>a_cache := c\<rparr>) w t paths)
           = map_sum id fst (combosFromPaths a w t paths)"
    by (rule combosFromPaths_cache_dev)
next
  assume h: "\<not> a_prod a \<and> inlinedFromPath a w t name = Inr (e1, a1)"
  then show "a1 = a\<lparr>a_cache := (a_cache a)(name \<mapsto> e1)\<rparr>"
    by (auto simp: inlinedFromPath_def Let_def split: sum.splits)
  from h show "\<exists>b. bytesFromPaths a (disk w) [name] = Inr b \<and> c_bytes e1 = applyProc t b"
    by (auto simp: inlinedFromPath_def Let_def split: sum.splits)
next
  assume h: "\<not> a_prod a \<and> combosFromPaths a w t paths = Inr (e2, a2)"
  then show "a2 = a\<lparr>a_cache := (a_cache a)(hash (Join paths []) @ t_ext t \<mapsto> e2)\<rparr>"
    by (auto simp: combosFromPaths_def Let_def split: sum.splits)
  from h show "\<exists>b. bytesFromPaths a (disk w) paths = Inr b \<and> c_bytes e2 = applyProc t b"
    by (auto simp: combosFromPaths_def Let_def split: sum.splits)
next
  assume "a_cache a (Wildcard param) = Some e3"
  then show "assetsServeHTTP a param = Content (Wildcard param) (c_mime e3) (c_time e3) (c_bytes e3)"
    by (simp add: assetsServeHTTP_def Let_def)
qed

theorem asset_cache_lookup_witness:
  "a_prod (cachedAssets True) \<and> a_cache (cachedAssets True) ''js/a.js'' = Some staleEntry
   \<and> inlinedFromPath (cachedAssets True) exampleWorld paste ''js/a.js''
       = Inr (staleEntry, cachedAssets True)
   \<and> \<not> a_prod (cachedAssets False)
   \<and> map_sum id fst (inlinedFromPath ((cachedAssets False)\<lparr>a_cache := Map.empty\<rparr>) exampleWorld paste ''js/a.js'')
       = map_sum id fst (inlinedFromPath (cachedAssets False) exampleWorld paste ''js/a.js'')
   \<and> a_cache (cachedAssets False) (Wildcard ''/js/a.js'') = Some staleEntry
   \<and> assetsServeHTTP (cachedAssets False) ''/js/a.js''
       = Content (Wildcard ''/js/a.js'') (c_mime staleEntry) (c_time staleEntry) (c_bytes staleEntry)"
proof -
  have 1: "a_prod (cachedAssets True) \<and> a_cache (cachedAssets True) ''js/a.js'' = Some staleEntry"
    by (simp add: cachedAssets_def)
  have 2: "\<not> a_prod (cachedAssets False)"
    by (simp add: cachedAssets_def)
  have 3: "a_cache (cachedAssets False) (Wildcard ''/js/a.js'') = Some staleEntry"
    by (simp add: cachedAssets_def Wildcard_def HasPrefix_def)
  show ?thesis
    using 1 2 3
      asset_cache_lookup [where a = "cachedAssets True" and name = "''js/a.js''"
          and e = staleEntry and w = exampleWorld and t = paste]
      asset_cache_lookup [where a = "cachedAssets False" and name = "''js/a.js''"
          and c = Map.empty and w = exampleWorld and t = paste and param = "''/js/a.js''"
          and ?e3.0 = staleEntry]
    by blast
qed

text \<open>
  The claim as stated fails for the lookup of the bundle route: in development mode,
  with stale bytes cached under \<open>js/a.js\<close>, the route answers with the stale bytes,
  while a rebuild from the disk gives the bytes of the file.
\<close>

theorem serve_stale_counterexample:
  "\<not> a_prod (cachedAssets False)
   \<and> assetsServeHTTP (cachedAssets False) ''/js/a.js'' = Content ''js/a.js'' [] 0 ''stale''
   \<and> map_sum id (c_bytes \<circ> fst) (inlinedFromPath (cachedAssets False) exampleWorld paste ''js/a.js'')
       = Inr ''A''"
  by code_simp

subsection \<open>Determinism of \<open>combined\<close>\<close>

text \<open>
  Claim C9. If a call of \<open>combined\<close> returns a fragment, a second call in the same
  process (the same start time, hence the same root of the bundle route) with the same
  references and an unchanged disk returns the same fragment, so the same bundle name and
  URL, and the bundle entries cached after the two calls have the same name and the
  same bytes.
\<close>

theorem combined_deterministic:
  assumes "fst (combined a w t sources) = Inr html"
    and "disk w' = disk w" and "started w' = started w"
  shows "fst (combined (snd (combined a w t sources)) w' t sources) = Inr html
       \<and> (\<exists>e1 e2.
             a_cache (snd (combined a w t sources)) (hash (Join (unpackPaths sources) []) @ t_ext t)
               = Some e1
           \<and> a_cache (snd (combined (snd (combined a w t sources)) w' t sources))
               (hash (Join (unpackPaths sources) []) @ t_ext t) = Some e2
           \<and> c_name e2 = c_name e1 \<and> c_bytes e2 = c_bytes e1)"
proof -
  let ?pack = "unpackPaths sources"
  let ?key = "hash (Join ?pack []) @ t_ext t"
  from assms(1) obtain e1 a1 where c: "combosFromPaths a w t ?pack = Inr (e1, a1)"
    by (auto simp: combined_def Let_def split: sum.splits)
  from assms(1) c obtain first rest where pk: "?pack = first # rest"
    by (cases ?pack) (auto simp: combined_def Let_def)
  from c pk have s1: "combined a w t sources = (Inr html, a1)"
    using assms(1) by (auto simp: combined_def Let_def)
  have r: "concatRoot w' = concatRoot w"
    using assms(3) by (rule concatRoot_started)
  have "\<exists>e2 a2. combosFromPaths a1 w' t ?pack = Inr (e2, a2) \<and> a_cache a1 ?key = Some e1
         \<and> a_cache a2 ?key = Some e2 \<and> c_name e2 = c_name e1 \<and> c_bytes e2 = c_bytes e1
         \<and> a_root a1 = a_root a"
  proof (cases "a_prod a")
    case True
    with c show ?thesis
      by (auto simp: combosFromPaths_def Let_def split: option.splits sum.splits)
  next
    case False
    with c assms(2) show ?thesis
      by (auto simp: combosFromPaths_def Let_def bytesFromPaths_cache split: sum.splits)
  qed
  then obtain e2 a2 where c2: "combosFromPaths a1 w' t ?pack = Inr (e2, a2)"
    and k: "a_cache a1 ?key = Some e1" "a_cache a2 ?key = Some e2"
      "c_name e2 = c_name e1" "c_bytes e2 = c_bytes e1" "a_root a1 = a_root a"
    by blast
  from c pk assms(1) have h: "html = Sprintf (t_html t)
      [if HasPrefix first ''/'' then pathJoin [a_root a, concatRoot w @ c_name e1]
       else TrimPrefix (concatRoot w @ c_name e1) ''/'', []]"
    by (auto simp: combined_def Let_def)
  from c2 pk k r h have s2: "combined a1 w' t sources = (Inr html, a2)"
    by (simp add: combined_def Let_def)
  from s1 s2 k show ?thesis by simp
qed

theorem combined_deterministic_witness:
  "fst (combined (exampleAssets False) exampleWorld js [Str ''js/lib'', Str ''js/a.js''])
     = Inr ''<script src=\"assets/36357d494533/0ff0e6cb59d7.js\"></script>''
   \<and> fst (combined (snd (combined (exampleAssets False) exampleWorld js [Str ''js/lib'', Str ''js/a.js'']))
            (exampleWorld\<lparr>now := 1700000060\<rparr>) js [Str ''js/lib'', Str ''js/a.js''])
     = Inr ''<script src=\"assets/36357d494533/0ff0e6cb59d7.js\"></script>''"
proof -
  have h: "fst (combined (exampleAssets False) exampleWorld js [Str ''js/lib'', Str ''js/a.js''])
     = Inr ''<script src=\"assets/36357d494533/0ff0e6cb59d7.js\"></script>''"
    by code_simp
  have d: "disk (exampleWorld\<lparr>now := 1700000060\<rparr>) = disk exampleWorld"
    "started (exampleWorld\<lparr>now := 1700000060\<rparr>) = started exampleWorld"
    by simp_all
  from combined_deterministic [OF h d] h show ?thesis by simp
qed

subsection \<open>Resolution and ignored names\<close>

text \<open>
  What resolution does guarantee: no path that \<open>List\<close> returns is ignored, and no
  element of a resolved path is one that the patterns recognise. An element that starts
  with two dots is not among those.
\<close>

lemma listDir_not_ignored:
  "p \<in> set (listDir source n) \<Longrightarrow> \<not> Ignore p"
  "p \<in> set (listEntries source es) \<Longrightarrow> \<not> Ignore p"
proof (induction source n and source es rule: listDir_listEntries.induct)
  case (1 source es)
  then show ?case by (auto split: if_splits)
next
  case (2 source b)
  then show ?case by (auto split: if_splits)
next
  case (3 source)
  then show ?case by simp
next
  case (4 source)
  then show ?case by simp
next
  case (5 source e es)
  then show ?case
    by (auto simp: Let_def split: if_splits node.splits)
qed

lemma List_not_ignored: "p \<in> set (List fs source) \<Longrightarrow> \<not> Ignore p"
  by (auto simp: List_def listDir_not_ignored split: if_splits option.splits)

lemma splitSlash_head:
  "hd (splitSlash p) = d # s \<Longrightarrow> \<exists>q. p = d # q \<and> d \<noteq> CHR ''/''"
  by (cases p) (auto split: if_splits list.splits)

lemma hidden_head:
  assumes h: "hidden (hd (splitSlash p))"
  shows "matchHere [Lit CHR ''_''] p \<or> matchHere [Lit CHR ''.'', NotLit CHR ''.''] p"
proof (cases p)
  case Nil
  with h show ?thesis by (simp add: hidden_def)
next
  case (Cons c cs)
  show ?thesis
  proof (cases "c = CHR ''/''")
    case True
    with Cons h show ?thesis by (simp add: hidden_def)
  next
    case False
    obtain s ss where sp: "splitSlash cs = s # ss"
      by (cases "splitSlash cs") (cases cs, auto split: if_splits list.splits)
    with Cons False have hd: "hd (splitSlash p) = c # s" by simp
    show ?thesis
    proof (cases s)
      case Nil
      with h hd Cons show ?thesis by (auto simp: hidden_def)
    next
      case (Cons d s')
      with sp have "hd (splitSlash cs) = d # s'" by simp
      then obtain q where "cs = d # q" using splitSlash_head by blast
      with h hd Cons \<open>p = c # cs\<close> show ?thesis by (auto simp: hidden_def)
    qed
  qed
qed

lemma matchHere_somewhere: "matchHere as p \<Longrightarrow> matchSomewhere as p"
  by (cases p) auto

lemma hidden_tail:
  "seg \<in> set (tl (splitSlash p)) \<Longrightarrow> hidden seg \<Longrightarrow>
   matchSomewhere [Lit CHR ''/'', Lit CHR ''_''] p
   \<or> matchSomewhere [Lit CHR ''/'', Lit CHR ''.'', NotLit CHR ''.''] p"
proof (induction p)
  case Nil
  then show ?case by simp
next
  case (Cons c cs)
  show ?case
  proof (cases "c = CHR ''/''")
    case True
    with Cons.prems have m: "seg \<in> set (splitSlash cs)" by simp
    have ne: "splitSlash cs \<noteq> []"
      by (cases cs) (auto split: list.splits)
    from m ne have "seg = hd (splitSlash cs) \<or> seg \<in> set (tl (splitSlash cs))"
      by (cases "splitSlash cs") auto
    then show ?thesis
    proof
      assume "seg = hd (splitSlash cs)"
      with Cons.prems(2) have "matchHere [Lit CHR ''_''] cs \<or> matchHere [Lit CHR ''.'', NotLit CHR ''.''] cs"
        using hidden_head by blast
      with True show ?thesis by auto
    next
      assume "seg \<in> set (tl (splitSlash cs))"
      with Cons.IH Cons.prems(2) show ?thesis by auto
    qed
  next
    case False
    with Cons.prems have "seg \<in> set (tl (splitSlash cs))"
      by (auto split: list.splits)
    with Cons.IH Cons.prems(2) show ?thesis by auto
  qed
qed

lemma hidden_segment_ignored:
  assumes "seg \<in> set (splitSlash p)" and "hidden seg"
  shows "Ignore p"
proof -
  have ne: "splitSlash p \<noteq> []"
    by (cases p) (auto split: list.splits)
  with assms(1) have "seg = hd (splitSlash p) \<or> seg \<in> set (tl (splitSlash p))"
    by (cases "splitSlash p") auto
  then show ?thesis
  proof
    assume "seg = hd (splitSlash p)"
    with assms(2) hidden_head show ?thesis
      by (auto simp: Ignore_def patterns_def MatchString_def)
  next
    assume "seg \<in> set (tl (splitSlash p))"
    with assms(2) hidden_tail show ?thesis
      by (auto simp: Ignore_def patterns_def MatchString_def)
  qed
qed

lemma List_no_hidden_segment:
  "p \<in> set (List fs source) \<Longrightarrow> seg \<in> set (splitSlash p) \<Longrightarrow> \<not> hidden seg"
  using List_not_ignored hidden_segment_ignored by blast

lemma double_dot_not_hidden: "\<not> hidden (''..'' @ s)"
  by (simp add: hidden_def)


lemma splitSlash_no_slash: "s \<in> set (splitSlash p) \<Longrightarrow> CHR ''/'' \<notin> set s"
proof (induction p arbitrary: s)
  case Nil
  then show ?case by simp
next
  case (Cons c cs)
  then show ?case
    by (cases "splitSlash cs") (auto split: if_splits)
qed

lemma splitSlash_append:
  "CHR ''/'' \<notin> set s \<Longrightarrow> splitSlash (s @ CHR ''/'' # p) = s # splitSlash p"
  by (induction s) auto

lemma splitSlash_single: "CHR ''/'' \<notin> set s \<Longrightarrow> splitSlash s = [s]"
  by (induction s) auto

lemma splitSlash_Join:
  "xs \<noteq> [] \<Longrightarrow> (\<And>s. s \<in> set xs \<Longrightarrow> CHR ''/'' \<notin> set s) \<Longrightarrow>
   splitSlash (Join xs ''/'') = xs"
proof (induction xs "''/''" rule: Join.induct)
  case 1
  then show ?case by simp
next
  case (2 x)
  then show ?case by (simp add: splitSlash_single)
next
  case (3 x y ys)
  then show ?case by (simp add: splitSlash_append)
qed

lemma cleanSegs_subset:
  "set (cleanSegs r acc ss) \<subseteq> set acc \<union> set ss \<union> {''..''}"
proof (induction r acc ss rule: cleanSegs.induct)
  case (1 rooted acc)
  then show ?case by auto
next
  case (2 rooted acc s ss)
  then show ?case
    by (auto split: if_splits list.splits)
qed

lemma dropCommon_subset: "set (snd (dropCommon bs ts)) \<subseteq> set ts"
  by (induction bs ts rule: dropCommon.induct) auto

lemma Clean_segments:
  assumes "seg \<in> set (splitSlash (Clean p))"
  shows "seg = [] \<or> seg = ''.'' \<or> seg = ''..'' \<or> seg \<in> set (splitSlash p)"
proof -
  let ?r = "HasPrefix p ''/''"
  let ?cs = "cleanSegs ?r [] (splitSlash p)"
  have sub: "set ?cs \<subseteq> set (splitSlash p) \<union> {''..''}"
    using cleanSegs_subset [of ?r "[]" "splitSlash p"] by auto
  have ns: "\<And>s. s \<in> set ?cs \<Longrightarrow> CHR ''/'' \<notin> set s"
    using sub splitSlash_no_slash by fastforce
  have j: "set (splitSlash (Join ?cs ''/'')) \<subseteq> set ?cs \<union> {[]}"
  proof (cases "?cs = []")
    case True
    then show ?thesis by simp
  next
    case False
    then show ?thesis using splitSlash_Join [OF False ns] by auto
  qed
  have "set (splitSlash (Clean p)) \<subseteq> set ?cs \<union> {[], ''.''}"
    using j by (auto simp: Clean_def Let_def split: if_splits)
  with assms sub show ?thesis by auto
qed

lemma Rel_segments:
  assumes "Rel base targ = Some rel" and "seg \<in> set (splitSlash rel)"
  shows "seg = [] \<or> seg = ''.'' \<or> seg = ''..'' \<or> seg \<in> set (splitSlash targ)"
proof (cases "Clean targ = Clean base")
  case True
  with assms(1) have "rel = ''.''" by (auto simp: Rel_def Let_def)
  with assms(2) have "seg = ''.''" by simp
  then show ?thesis by simp
next
  case False
  let ?b = "if Clean base = ''.'' then [] else Clean base"
  obtain bs ts where d: "dropCommon (relSegs ?b) (relSegs (Clean targ)) = (bs, ts)"
    by (cases "dropCommon (relSegs ?b) (relSegs (Clean targ))") auto
  let ?xs = "map (\<lambda>_. ''..'') bs @ ts"
  from assms(1) False d have rel: "rel = Join ?xs ''/''"
    by (auto simp: Rel_def Let_def split: if_splits)
  have ts: "set ts \<subseteq> set (splitSlash (Clean targ))"
    using dropCommon_subset [of "relSegs ?b" "relSegs (Clean targ)"] d
    by (auto simp: relSegs_def)
  have ns: "\<And>s. s \<in> set ?xs \<Longrightarrow> CHR ''/'' \<notin> set s"
    using ts splitSlash_no_slash by fastforce
  have "seg = [] \<or> seg \<in> set ?xs"
  proof (cases "?xs = []")
    case True
    with rel assms(2) show ?thesis by simp
  next
    case False
    with rel assms(2) splitSlash_Join [OF False ns] show ?thesis by simp
  qed
  then have "seg = [] \<or> seg = ''..'' \<or> seg \<in> set (splitSlash (Clean targ))"
    using ts by auto
  then show ?thesis using Clean_segments by blast
qed

lemma resolvePath_no_hidden_segment:
  assumes "p \<in> set (resolvePath a fs source)" and "seg \<in> set (splitSlash p)"
  shows "\<not> hidden seg"
proof -
  from assms(1) obtain abs where l: "abs \<in> set (List fs (pathJoin [a_dir a, source]))"
    and p: "p = (case Rel (a_dir a) abs of Some rel \<Rightarrow> prefixPath source rel | None \<Rightarrow> abs)"
    by (auto simp: resolvePath_def)
  have nh: "\<And>s. s \<in> set (splitSlash abs) \<Longrightarrow> \<not> hidden s"
    using l List_no_hidden_segment by blast
  show ?thesis
  proof (cases "Rel (a_dir a) abs")
    case None
    with p assms(2) nh show ?thesis by simp
  next
    case (Some rel)
    with p have "p = rel \<or> p = CHR ''/'' # rel"
      by (auto simp: prefixPath_def)
    with assms(2) have "seg = [] \<or> seg \<in> set (splitSlash rel)"
      by auto
    then have "seg = [] \<or> seg = ''.'' \<or> seg = ''..'' \<or> seg \<in> set (splitSlash abs)"
      using Rel_segments [OF Some] by blast
    with nh show ?thesis by (auto simp: hidden_def)
  qed
qed

lemma resolvePaths_no_hidden_segment:
  "p \<in> set (resolvePaths a fs sources) \<Longrightarrow> seg \<in> set (splitSlash p) \<Longrightarrow> \<not> hidden seg"
  by (auto simp: resolvePaths_def dest: resolvePath_no_hidden_segment)

text \<open>
  Claim C7, evaluated on the example disk: the directory \<open>js\<close> holds a hidden file, a
  directory that starts with an underscore and a file named \<open>..x.js\<close>. The first two are
  skipped; the third is returned, though its name begins with a dot and it is neither the
  parent reference nor the bare dot.
\<close>

theorem resolve_double_dot_name:
  "resolvePaths (exampleAssets True) exampleDisk [''js'']
     = [''js/..x.js'', ''js/a.js'', ''js/lib/b.js'']
   \<and> Ignore ''site/js/.h.js'' \<and> Ignore ''site/js/_p'' \<and> \<not> Ignore ''site/js/..x.js''
   \<and> resolvePaths (exampleAssets True) exampleDisk [''missing''] = []"
  by code_simp

section \<open>Properties of the template engine\<close>

subsection \<open>When the set of templates is compiled\<close>

lemma compileTemplates_templates:
  "templates (fst (compileTemplates L e fs)) \<noteq> None"
  by (simp add: compileTemplates_def split: prod.splits)

lemma compileTemplates_config:
  "config (fst (compileTemplates L e fs)) = config e"
  by (simp add: compileTemplates_def split: prod.splits)

lemma execute_config: "config (snd (execute L e fs n file env)) = config e"
  using compileTemplates_config [of L e fs]
  by (auto simp: execute_def Let_def split: prod.splits option.splits if_splits)

lemma execute_templates: "templates (snd (execute L e fs n file env)) \<noteq> None"
  using compileTemplates_templates [of L e fs]
  by (auto simp: execute_def Let_def split: prod.splits option.splits if_splits)

lemma execute_cached:
  "config_prod (config e) \<Longrightarrow> templates e \<noteq> None \<Longrightarrow>
   execute L e fs n f env = execute L e fs' n f env"
  by (auto simp: execute_def)

lemma funcMap_config: "config (funcMap e names) = config e"
  by (simp add: funcMap_def)

lemma funcMapLayout_set: "ts_set (funcMapLayout S name env) = ts_set S"
  by (simp add: funcMapLayout_def split: option.splits)

lemma execute_cached_Lookup:
  "config_prod (config e) \<Longrightarrow> templates e \<noteq> None \<Longrightarrow>
   Lookup (snd (execute L e fs n f env)) = Lookup e"
  by (rule ext) (auto simp: execute_def Lookup_def Let_def funcMapLayout_set)

lemma execute_compiles:
  assumes "templates e = None \<or> \<not> config_prod (config e)"
  shows "execute L e fs n f env =
     (case compileTemplates L e fs of
        (e1, Some err) \<Rightarrow> (Some ([], Some err), e1)
      | (e1, None) \<Rightarrow>
          (case templates e1 of
             None \<Rightarrow> (Some ([], Some ''nil template set''), e1)
           | Some S \<Rightarrow>
               if config_layout (config e1) \<noteq> [] then
                 (template L (funcMapLayout S (templateName f) env) n (config_layout (config e1)) env,
                  e1\<lparr>templates := Some (funcMapLayout S (templateName f) env)\<rparr>)
               else (template L S n f env, e1)))"
  using assms by (auto simp: execute_def Let_def split: prod.splits option.splits)

lemma execute_compiles_Lookup:
  assumes "templates e = None \<or> \<not> config_prod (config e)"
  shows "Lookup (snd (execute L e fs n f env)) = Lookup (fst (compileTemplates L e fs))"
  by (rule ext)
    (auto simp: execute_compiles [OF assms] Lookup_def funcMapLayout_set
      split: prod.splits option.splits)

lemma execute_compiles_engine:
  assumes "templates e = None \<or> \<not> config_prod (config e)" and "config_layout (config e) = []"
  shows "snd (execute L e fs n f env) = fst (compileTemplates L e fs)"
  using assms(2) compileTemplates_config [of L e fs] compileTemplates_templates [of L e fs]
  by (auto simp: execute_compiles [OF assms(1)] split: prod.splits option.splits)

lemma run_cached:
  "config_prod (config e) \<Longrightarrow> templates e \<noteq> None \<Longrightarrow> list_all isRender cs \<Longrightarrow>
   Lookup (run L n e cs) = Lookup e"
proof (induction cs arbitrary: e)
  case Nil
  then show ?case by simp
next
  case (Cons c cs)
  then obtain fs f env where c: "c = Render fs f env"
    by (cases c) auto
  have "Lookup (run L n (snd (execute L e fs n f env)) cs) = Lookup (snd (execute L e fs n f env))"
    using Cons.prems by (intro Cons.IH) (simp_all add: execute_config execute_templates)
  with c Cons.prems show ?case
    by (simp add: execute_cached_Lookup)
qed

lemma run_built_once:
  assumes "config_prod (config e)" and "templates e = None" and "list_all isRender cs"
  shows "Lookup (run L n e (Render fs f env # cs)) = Lookup (fst (compileTemplates L e fs))"
proof -
  have "Lookup (run L n (snd (execute L e fs n f env)) cs) = Lookup (snd (execute L e fs n f env))"
    using assms by (intro run_cached) (simp_all add: execute_config execute_templates)
  with assms(2) show ?thesis
    by (simp add: execute_compiles_Lookup)
qed

lemma run_append: "run L n e (cs @ ds) = run L n (run L n e cs) ds"
proof (induction cs arbitrary: e)
  case Nil
  then show ?case by simp
next
  case (Cons c cs)
  then show ?case by (cases c) simp_all
qed

lemma run_config: "config (run L n e cs) = config e"
proof (induction cs arbitrary: e)
  case Nil
  then show ?case by simp
next
  case (Cons c cs)
  then show ?case by (cases c) (simp_all add: execute_config funcMap_config)
qed

lemma run_rebuilds:
  assumes "\<not> config_prod (config e)"
  shows "Lookup (run L n e (cs @ [Render fs f env]))
         = Lookup (fst (compileTemplates L (run L n e cs) fs))"
  using assms by (simp add: run_append execute_compiles_Lookup run_config)

lemma compileTemplate_templates:
  "compileTemplate L (e\<lparr>templates := T\<rparr>) fs S rel = compileTemplate L e fs S rel"
  by (simp add: compileTemplate_def Let_def)

lemma compileWalk_templates:
  "compileWalk L (e\<lparr>templates := T\<rparr>) fs S visits = compileWalk L e fs S visits"
proof (induction visits arbitrary: S)
  case Nil
  then show ?case by simp
next
  case (Cons v visits)
  then show ?case
    by (cases v) (simp_all add: compileTemplate_templates split: prod.splits option.splits)
qed

lemma compileTemplates_templates_update:
  "compileTemplates L (e\<lparr>templates := T\<rparr>) fs = compileTemplates L e fs"
  by (simp add: compileTemplates_def compileWalk_templates split: prod.splits)

lemma execute_rebuilds:
  "\<not> config_prod (config e) \<Longrightarrow>
   execute L (e\<lparr>templates := T\<rparr>) fs n f env = execute L e fs n f env"
  by (simp add: execute_def compileTemplates_templates_update)

lemma compileTemplate_parsed:
  "compileTemplate L e fs S rel = (S', None) \<Longrightarrow>
   \<exists>body. Parse L (funcs e) (Read fs (pathJoin [config_dir (config e), rel])) = Inr body"
  by (auto simp: compileTemplate_def Let_def split: if_splits sum.splits)

lemma compileWalk_parses_all:
  assumes "compileWalk L e fs S visits = (S', None)" and "v \<in> set visits"
  shows "\<exists>rel. v = Inr rel
       \<and> (Ext rel = frontendExt \<or> Ext rel = backendExt \<longrightarrow>
            (\<exists>body. Parse L (funcs e) (Read fs (pathJoin [config_dir (config e), rel])) = Inr body))"
  using assms
proof (induction visits arbitrary: S)
  case Nil
  then show ?case by simp
next
  case (Cons u visits)
  show ?case
  proof (cases u)
    case (Inl err)
    with Cons.prems show ?thesis by simp
  next
    case (Inr rel)
    show ?thesis
    proof (cases "Ext rel \<noteq> frontendExt \<and> Ext rel \<noteq> backendExt")
      case True
      with Inr Cons.prems have w: "compileWalk L e fs S visits = (S', None)" by simp
      show ?thesis
      proof (cases "v = u")
        case True
        with Inr \<open>Ext rel \<noteq> frontendExt \<and> Ext rel \<noteq> backendExt\<close> show ?thesis by auto
      next
        case False
        with Cons.prems(2) have "v \<in> set visits" by simp
        with w show ?thesis by (rule Cons.IH)
      qed
    next
      case False
      with Inr Cons.prems obtain S1 where t: "compileTemplate L e fs S rel = (S1, None)"
        and w: "compileWalk L e fs S1 visits = (S', None)"
        by (auto split: prod.splits option.splits)
      show ?thesis
      proof (cases "v = u")
        case True
        with Inr compileTemplate_parsed [OF t] show ?thesis by auto
      next
        case False
        with Cons.prems(2) have "v \<in> set visits" by simp
        with w show ?thesis by (rule Cons.IH)
      qed
    qed
  qed
qed

lemma compileTemplates_parses_all:
  assumes "snd (compileTemplates L e fs) = None"
    and "Inr rel \<in> set (Walk fs (config_dir (config e)))"
    and "Ext rel = frontendExt \<or> Ext rel = backendExt"
  shows "\<exists>body. Parse L (funcs e) (Read fs (pathJoin [config_dir (config e), rel])) = Inr body"
proof -
  from assms(1) obtain S' where
    "compileWalk L e fs (New (config_dir (config e))) (Walk fs (config_dir (config e))) = (S', None)"
    by (auto simp: compileTemplates_def split: prod.splits)
  from compileWalk_parses_all [OF this assms(2)] assms(3) show ?thesis by auto
qed

lemma compileTemplate_installs:
  assumes "compileTemplate L e fs S rel = (S', None)"
    and "templateName rel \<noteq> ts_name S"
  shows "ts_name S' = ts_name S"
    and "\<exists>b. ts_set S' (templateName rel) = Some (Some b)"
    and "nm \<noteq> templateName rel \<Longrightarrow> ts_set S' nm = ts_set S nm"
  using assms
  by (auto simp: compileTemplate_def Let_def split: if_splits sum.splits option.splits)

lemma compileWalk_keeps:
  assumes "compileWalk L e fs S visits = (S', None)"
    and "\<And>r. Inr r \<in> set visits \<Longrightarrow> templateName r \<noteq> ts_name S"
  shows "ts_name S' = ts_name S"
    and "ts_set S nm = Some (Some b) \<Longrightarrow> \<exists>b'. ts_set S' nm = Some (Some b')"
  using assms
proof (induction visits arbitrary: S b)
  case Nil
  {
    case 1
    then show ?case by simp
  next
    case 2
    then show ?case by simp
  }
next
  case (Cons v visits)
  {
    case 1
    show ?case
    proof (cases v)
      case (Inl err)
      with 1 show ?thesis by simp
    next
      case (Inr rel)
      show ?thesis
      proof (cases "Ext rel \<noteq> frontendExt \<and> Ext rel \<noteq> backendExt")
        case True
        with Inr 1 have "compileWalk L e fs S visits = (S', None)" by simp
        then show ?thesis using 1(2) by (intro Cons.IH(1)) auto
      next
        case False
        with Inr 1 obtain S1 where t: "compileTemplate L e fs S rel = (S1, None)"
          and w: "compileWalk L e fs S1 visits = (S', None)"
          by (auto split: prod.splits option.splits)
        from Inr 1(2) have ne: "templateName rel \<noteq> ts_name S" by simp
        have n1: "ts_name S1 = ts_name S"
          using compileTemplate_installs(1) [OF t ne] .
        have "ts_name S' = ts_name S1"
          using w 1(2) n1 by (intro Cons.IH(1)) auto
        with n1 show ?thesis by simp
      qed
    qed
  next
    case 2
    show ?case
    proof (cases v)
      case (Inl err)
      with 2 show ?thesis by simp
    next
      case (Inr rel)
      show ?thesis
      proof (cases "Ext rel \<noteq> frontendExt \<and> Ext rel \<noteq> backendExt")
        case True
        with Inr 2 have "compileWalk L e fs S visits = (S', None)" by simp
        then show ?thesis using 2(1,3) by (intro Cons.IH(2)) auto
      next
        case False
        with Inr 2 obtain S1 where t: "compileTemplate L e fs S rel = (S1, None)"
          and w: "compileWalk L e fs S1 visits = (S', None)"
          by (auto split: prod.splits option.splits)
        from Inr 2(3) have ne: "templateName rel \<noteq> ts_name S" by simp
        have n1: "ts_name S1 = ts_name S"
          using compileTemplate_installs(1) [OF t ne] .
        have "\<exists>b1. ts_set S1 nm = Some (Some b1)"
        proof (cases "nm = templateName rel")
          case True
          with compileTemplate_installs(2) [OF t ne] show ?thesis by simp
        next
          case False
          with compileTemplate_installs(3) [OF t ne] 2(1) show ?thesis by simp
        qed
        then obtain b1 where "ts_set S1 nm = Some (Some b1)" by blast
        then show ?thesis
          using w 2(3) n1 by (intro Cons.IH(2)) auto
      qed
    qed
  }
qed

lemma compileWalk_installs_all:
  assumes "compileWalk L e fs S visits = (S', None)"
    and "\<And>r. Inr r \<in> set visits \<Longrightarrow> templateName r \<noteq> ts_name S"
    and "Inr rel \<in> set visits"
    and "Ext rel = frontendExt \<or> Ext rel = backendExt"
  shows "\<exists>b. ts_set S' (templateName rel) = Some (Some b)"
  using assms
proof (induction visits arbitrary: S)
  case Nil
  then show ?case by simp
next
  case (Cons v visits)
  show ?case
  proof (cases v)
    case (Inl err)
    with Cons.prems show ?thesis by simp
  next
    case (Inr r)
    from Inr Cons.prems(2) have ne: "templateName r \<noteq> ts_name S" by simp
    show ?thesis
    proof (cases "Ext r \<noteq> frontendExt \<and> Ext r \<noteq> backendExt")
      case True
      with Inr Cons.prems(1) have w: "compileWalk L e fs S visits = (S', None)" by simp
      from True Inr Cons.prems(3,4) have "Inr rel \<in> set visits" by auto
      with w Cons.prems(2,4) show ?thesis by (intro Cons.IH) auto
    next
      case False
      with Inr Cons.prems(1) obtain S1 where t: "compileTemplate L e fs S r = (S1, None)"
        and w: "compileWalk L e fs S1 visits = (S', None)"
        by (auto split: prod.splits option.splits)
      have n1: "ts_name S1 = ts_name S"
        using compileTemplate_installs(1) [OF t ne] .
      have nv: "\<And>q. Inr q \<in> set visits \<Longrightarrow> templateName q \<noteq> ts_name S1"
        using Cons.prems(2) n1 by auto
      show ?thesis
      proof (cases "Inr rel \<in> set visits")
        case True
        with w nv Cons.prems(4) show ?thesis by (intro Cons.IH) auto
      next
        case False
        with Cons.prems(3) Inr have "rel = r" by simp
        with compileTemplate_installs(2) [OF t ne]
        obtain b where "ts_set S1 (templateName rel) = Some (Some b)" by blast
        with compileWalk_keeps(2) [OF w nv] show ?thesis by blast
      qed
    qed
  qed
qed

lemma compileTemplates_installs_all:
  assumes "snd (compileTemplates L e fs) = None"
    and "\<And>r. Inr r \<in> set (Walk fs (config_dir (config e))) \<Longrightarrow>
           templateName r \<noteq> config_dir (config e)"
    and "Inr rel \<in> set (Walk fs (config_dir (config e)))"
    and "Ext rel = frontendExt \<or> Ext rel = backendExt"
  shows "\<exists>b. Lookup (fst (compileTemplates L e fs)) (templateName rel) = Some (Some b)"
proof -
  let ?d = "config_dir (config e)"
  from assms(1) obtain S' where w: "compileWalk L e fs (New ?d) (Walk fs ?d) = (S', None)"
    by (auto simp: compileTemplates_def split: prod.splits)
  have n: "\<And>r. Inr r \<in> set (Walk fs ?d) \<Longrightarrow> templateName r \<noteq> ts_name (New ?d)"
    using assms(2) by (simp add: New_def)
  from compileWalk_installs_all [OF w n assms(3,4)]
  obtain b where "ts_set S' (templateName rel) = Some (Some b)" by blast
  with w show ?thesis
    by (auto simp: compileTemplates_def Lookup_def)
qed

text \<open>
  Claim C5. In production mode a render of an engine that holds a set does not read the
  disk and leaves the templates of the set as they are; so through a run of renders the
  set stays the one the engine held or, for an engine without a set, the one that
  \<open>compileTemplates\<close> builds from the disk of the first render, whatever the disks of
  the later renders hold. \<open>funcMap\<close> (the body of \<open>RegisterFunctions\<close>) drops the set,
  and the render that follows it, like every render of an engine without a set and
  every render in development mode, runs \<open>compileTemplates\<close> on the disk of that
  render: the set it leaves is the compiled one (the engine is the compiled engine when
  no layout is configured), an error of the compilation is the error of the render, and
  without a layout the output is that of the page in the compiled set. A compilation
  owes nothing to the set held before, and one that succeeds has parsed every template
  file that the walk of the site directory visits and, when no file is named as the site
  directory is, holds a body under the name of each of them.
\<close>

theorem registry_build_policy:
  "(config_prod (config e) \<and> templates e \<noteq> None \<longrightarrow>
      execute L e fs n f env = execute L e fs' n f env
      \<and> Lookup (snd (execute L e fs n f env)) = Lookup e)
   \<and> templates (snd (execute L e fs n f env)) \<noteq> None
   \<and> (config_prod (config e) \<and> templates e \<noteq> None \<and> list_all isRender cs \<longrightarrow>
        Lookup (run L n e cs) = Lookup e)
   \<and> (config_prod (config e) \<and> templates e = None \<and> list_all isRender cs \<longrightarrow>
        Lookup (run L n e (Render fs f env # cs)) = Lookup (fst (compileTemplates L e fs)))
   \<and> (templates e = None \<or> \<not> config_prod (config e) \<longrightarrow>
        Lookup (snd (execute L e fs n f env)) = Lookup (fst (compileTemplates L e fs))
        \<and> (config_layout (config e) = [] \<longrightarrow>
             snd (execute L e fs n f env) = fst (compileTemplates L e fs))
        \<and> (snd (compileTemplates L e fs) = Some err \<longrightarrow>
             fst (execute L e fs n f env) = Some ([], Some err))
        \<and> (snd (compileTemplates L e fs) = None \<and> config_layout (config e) = []
             \<and> templates (fst (compileTemplates L e fs)) = Some S \<longrightarrow>
             fst (execute L e fs n f env) = template L S n f env))
   \<and> templates (funcMap e names) = None
   \<and> Lookup (snd (execute L (funcMap e names) fs n f env))
       = Lookup (fst (compileTemplates L (funcMap e names) fs))
   \<and> (\<not> config_prod (config e) \<longrightarrow>
        Lookup (run L n e (cs @ [Render fs f env]))
          = Lookup (fst (compileTemplates L (run L n e cs) fs))
        \<and> execute L (e\<lparr>templates := T\<rparr>) fs n f env = execute L e fs n f env)
   \<and> compileTemplates L (e\<lparr>templates := T\<rparr>) fs = compileTemplates L e fs
   \<and> (snd (compileTemplates L e fs) = None
        \<and> Inr rel \<in> set (Walk fs (config_dir (config e)))
        \<and> (Ext rel = frontendExt \<or> Ext rel = backendExt) \<longrightarrow>
        (\<exists>body. Parse L (funcs e) (Read fs (pathJoin [config_dir (config e), rel])) = Inr body))
   \<and> (snd (compileTemplates L e fs) = None
        \<and> (\<forall>r. Inr r \<in> set (Walk fs (config_dir (config e))) \<longrightarrow>
               templateName r \<noteq> config_dir (config e))
        \<and> Inr rel \<in> set (Walk fs (config_dir (config e)))
        \<and> (Ext rel = frontendExt \<or> Ext rel = backendExt) \<longrightarrow>
        (\<exists>b. Lookup (fst (compileTemplates L e fs)) (templateName rel) = Some (Some b)))"
proof (intro conjI impI)
  assume h: "config_prod (config e) \<and> templates e \<noteq> None"
  then show "execute L e fs n f env = execute L e fs' n f env"
    by (simp add: execute_cached)
  from h show "Lookup (snd (execute L e fs n f env)) = Lookup e"
    by (simp add: execute_cached_Lookup)
next
  show "templates (snd (execute L e fs n f env)) \<noteq> None"
    by (rule execute_templates)
next
  assume "config_prod (config e) \<and> templates e \<noteq> None \<and> list_all isRender cs"
  then show "Lookup (run L n e cs) = Lookup e"
    by (simp add: run_cached)
next
  assume "config_prod (config e) \<and> templates e = None \<and> list_all isRender cs"
  then show "Lookup (run L n e (Render fs f env # cs)) = Lookup (fst (compileTemplates L e fs))"
    using run_built_once by blast
next
  assume g: "templates e = None \<or> \<not> config_prod (config e)"
  then show "Lookup (snd (execute L e fs n f env)) = Lookup (fst (compileTemplates L e fs))"
    by (rule execute_compiles_Lookup)
  {
    assume "config_layout (config e) = []"
    with g show "snd (execute L e fs n f env) = fst (compileTemplates L e fs)"
      by (rule execute_compiles_engine)
  }
  {
    assume "snd (compileTemplates L e fs) = Some err"
    then show "fst (execute L e fs n f env) = Some ([], Some err)"
      by (auto simp: execute_compiles [OF g] split: prod.splits)
  }
  {
    assume "snd (compileTemplates L e fs) = None \<and> config_layout (config e) = []
             \<and> templates (fst (compileTemplates L e fs)) = Some S"
    then show "fst (execute L e fs n f env) = template L S n f env"
      using compileTemplates_config [of L e fs]
      by (auto simp: execute_compiles [OF g] split: prod.splits)
  }
next
  show "templates (funcMap e names) = None"
    by (simp add: funcMap_def)
next
  show "Lookup (snd (execute L (funcMap e names) fs n f env))
       = Lookup (fst (compileTemplates L (funcMap e names) fs))"
    by (rule execute_compiles_Lookup) (simp add: funcMap_def)
next
  assume d: "\<not> config_prod (config e)"
  then show "Lookup (run L n e (cs @ [Render fs f env]))
          = Lookup (fst (compileTemplates L (run L n e cs) fs))"
    by (rule run_rebuilds)
  from d show "execute L (e\<lparr>templates := T\<rparr>) fs n f env = execute L e fs n f env"
    by (rule execute_rebuilds)
next
  show "compileTemplates L (e\<lparr>templates := T\<rparr>) fs = compileTemplates L e fs"
    by (rule compileTemplates_templates_update)
next
  assume "snd (compileTemplates L e fs) = None
        \<and> Inr rel \<in> set (Walk fs (config_dir (config e)))
        \<and> (Ext rel = frontendExt \<or> Ext rel = backendExt)"
  then show "\<exists>body. Parse L (funcs e) (Read fs (pathJoin [config_dir (config e), rel])) = Inr body"
    using compileTemplates_parses_all by blast
next
  assume "snd (compileTemplates L e fs) = None
        \<and> (\<forall>r. Inr r \<in> set (Walk fs (config_dir (config e))) \<longrightarrow>
               templateName r \<noteq> config_dir (config e))
        \<and> Inr rel \<in> set (Walk fs (config_dir (config e)))
        \<and> (Ext rel = frontendExt \<or> Ext rel = backendExt)"
  then show "\<exists>b. Lookup (fst (compileTemplates L e fs)) (templateName rel) = Some (Some b)"
    using compileTemplates_installs_all [of L e fs rel] by blast
qed


theorem registry_build_policy_witness:
  "config_prod (config (newEngine (exampleConfig True [])))
   \<and> templates (newEngine (exampleConfig True [])) = None
   \<and> list_all isRender [Render (pagesDisk ''B'') ''/a.html'' Map.empty]
   \<and> Lookup (run exampleLibrary 5 (newEngine (exampleConfig True []))
                [Render siteDisk ''/page.html'' Map.empty,
                 Render (pagesDisk ''B'') ''/a.html'' Map.empty]) ''page''
       = Some (Some [Text ''Page''])
   \<and> Lookup (run exampleLibrary 5 (newEngine (exampleConfig True []))
                [Render siteDisk ''/page.html'' Map.empty,
                 Render (pagesDisk ''B'') ''/a.html'' Map.empty]) ''a''
       = None
   \<and> \<not> config_prod (config (newEngine (exampleConfig False [])))
   \<and> Lookup (run exampleLibrary 5 (newEngine (exampleConfig False []))
                [Render siteDisk ''/page.html'' Map.empty,
                 Render (pagesDisk ''B'') ''/a.html'' Map.empty]) ''a''
       = Some (Some [Text ''A''])
   \<and> Lookup (run exampleLibrary 5 (newEngine (exampleConfig False []))
                [Render siteDisk ''/page.html'' Map.empty,
                 Render (pagesDisk ''B'') ''/a.html'' Map.empty]) ''page''
       = None"
proof -
  let ?P = "newEngine (exampleConfig True [])"
  let ?D = "newEngine (exampleConfig False [])"
  let ?r1 = "Render siteDisk ''/page.html'' Map.empty"
  let ?r2 = "Render (pagesDisk ''B'') ''/a.html'' Map.empty"
  have p: "config_prod (config ?P)" "templates ?P = None" "\<not> config_prod (config ?D)"
    by (simp_all add: newEngine_def exampleConfig_def config_prod_def)
  have l: "list_all isRender [?r2]" by simp
  have 1: "Lookup (run exampleLibrary 5 ?P (?r1 # [?r2]))
           = Lookup (fst (compileTemplates exampleLibrary ?P siteDisk))"
    using p l
      registry_build_policy [where e = ?P and cs = "[?r2]" and L = exampleLibrary and n = 5
        and fs = siteDisk and f = "''/page.html''" and env = Map.empty]
    by blast
  have 2: "Lookup (run exampleLibrary 5 ?D ([?r1] @ [?r2]))
           = Lookup (fst (compileTemplates exampleLibrary (run exampleLibrary 5 ?D [?r1])
                            (pagesDisk ''B'')))"
    using p
      registry_build_policy [where e = ?D and cs = "[?r1]" and L = exampleLibrary and n = 5
        and fs = "pagesDisk ''B''" and f = "''/a.html''" and env = Map.empty]
    by blast
  have v1: "Lookup (fst (compileTemplates exampleLibrary ?P siteDisk)) ''page''
            = Some (Some [Text ''Page''])"
    "Lookup (fst (compileTemplates exampleLibrary ?P siteDisk)) ''a'' = None"
    by code_simp+
  have v2: "Lookup (fst (compileTemplates exampleLibrary (run exampleLibrary 5 ?D [?r1])
                            (pagesDisk ''B''))) ''a'' = Some (Some [Text ''A''])"
    "Lookup (fst (compileTemplates exampleLibrary (run exampleLibrary 5 ?D [?r1])
                            (pagesDisk ''B''))) ''page'' = None"
    by code_simp+
  from 1 2 v1 v2 p l show ?thesis
    by simp
qed

subsection \<open>A compilation that fails\<close>

lemma compileWalk_append:
  "compileWalk L e fs S (xs @ ys) =
     (case compileWalk L e fs S xs of
        (S', Some err) \<Rightarrow> (S', Some err)
      | (S', None) \<Rightarrow> compileWalk L e fs S' ys)"
proof (induction xs arbitrary: S)
  case Nil
  then show ?case by simp
next
  case (Cons v xs)
  then show ?case
    by (cases v) (simp_all split: prod.splits option.splits)
qed

text \<open>
  Claim C3, as amended. When a render compiles and a template file fails to parse, the
  request is answered with the 404 page, and the engine is left with the new set as the
  compilation had filled it up to the failing file, whatever set the engine held
  before: the set compiled from the files before it, with the failing name without a
  body, and none of the files after it; or, when the failing file is named as the set
  itself is (as the site directory) and the set still holds its own template under
  that name, the fresh set of that one name, the templates compiled before being lost
  with the set that is reset.
\<close>

theorem failed_compile:
  assumes "templates e = None \<or> \<not> config_prod (config e)"
    and "Walk fs (config_dir (config e)) = before @ Inr rel # rest"
    and "compileWalk L e fs (New (config_dir (config e))) before = (S, None)"
    and "Ext rel = frontendExt \<or> Ext rel = backendExt"
    and "Parse L (funcs e) (Read fs (pathJoin [config_dir (config e), rel])) = Inl err"
  shows "fst (respond L e fs n cfg st f data) = Some http404
       \<and> snd (respond L e fs n cfg st f data)
           = e\<lparr>templates := Some
                 (if ts_handle S \<and> templateName rel = ts_name S
                  then \<lparr>ts_name = templateName rel, ts_handle = False,
                        ts_set = [templateName rel \<mapsto> None], ts_yield = YieldDefault\<rparr>
                  else S\<lparr>ts_set := (ts_set S)(templateName rel \<mapsto> None),
                         ts_yield := YieldDefault\<rparr>)\<rparr>
       \<and> compileWalk L (e\<lparr>templates := T\<rparr>) fs (New (config_dir (config e))) before = (S, None)"
proof -
  let ?S = "if ts_handle S \<and> templateName rel = ts_name S
            then \<lparr>ts_name = templateName rel, ts_handle = False,
                  ts_set = [templateName rel \<mapsto> None], ts_yield = YieldDefault\<rparr>
            else S\<lparr>ts_set := (ts_set S)(templateName rel \<mapsto> None), ts_yield := YieldDefault\<rparr>"
  have t: "compileTemplate L e fs S rel = (?S, Some err)"
    using assms(5) by (simp add: compileTemplate_def Let_def)
  have "compileWalk L e fs S (Inr rel # rest) = (?S, Some err)"
    using assms(4) t by auto
  with assms(2,3) have "compileWalk L e fs (New (config_dir (config e)))
      (Walk fs (config_dir (config e))) = (?S, Some err)"
    by (simp add: compileWalk_append)
  then have c: "compileTemplates L e fs = (e\<lparr>templates := Some ?S\<rparr>, Some err)"
    by (simp add: compileTemplates_def)
  with assms(1) have "execute L e fs n f (createEnv e cfg data)
      = (Some ([], Some err), e\<lparr>templates := Some ?S\<rparr>)"
    by (auto simp: execute_def)
  then have "respond L e fs n cfg st f data = (Some http404, e\<lparr>templates := Some ?S\<rparr>)"
    by (simp add: respond_def Let_def)
  with assms(3) show ?thesis
    by (simp add: compileWalk_templates)
qed

theorem failed_compile_witness:
  "fst (respond exampleLibrary compiledEngine (pagesDisk ''{{'') 5 JNull 200 ''/a.html'' Map.empty)
     = Some http404
   \<and> Lookup (snd (respond exampleLibrary compiledEngine (pagesDisk ''{{'') 5 JNull 200 ''/a.html'' Map.empty)) ''b''
     = Some None
   \<and> fst (respond exampleLibrary (newEngine (exampleConfig False [])) ownNameDisk 5 JNull 200
             ''/a.html'' Map.empty) = Some http404
   \<and> Lookup (snd (respond exampleLibrary (newEngine (exampleConfig False [])) ownNameDisk 5 JNull 200
                     ''/a.html'' Map.empty)) ''site'' = Some None
   \<and> Lookup (snd (respond exampleLibrary (newEngine (exampleConfig False [])) ownNameDisk 5 JNull 200
                     ''/a.html'' Map.empty)) ''a'' = None"
proof -
  let ?c = compiledEngine
  let ?W = "compileWalk exampleLibrary ?c (pagesDisk ''{{'') (New (config_dir (config ?c)))
      [Inr ''a.html'']"
  have 1: "templates ?c = None \<or> \<not> config_prod (config ?c)"
    by (simp add: compiledEngine_def execute_config newEngine_def exampleConfig_def config_prod_def)
  have 2: "Walk (pagesDisk ''{{'') (config_dir (config ?c))
      = [Inr ''a.html''] @ Inr ''b.html'' # [Inr ''c.html'']"
    by code_simp
  have "snd ?W = None"
    by code_simp
  then obtain S where 3: "?W = (S, None)"
    by (metis prod.collapse)
  have 4: "Ext ''b.html'' = frontendExt \<or> Ext ''b.html'' = backendExt"
    by code_simp
  have 5: "Parse exampleLibrary (funcs ?c)
      (Read (pagesDisk ''{{'') (pathJoin [config_dir (config ?c), ''b.html'']))
      = Inl ''unclosed action''"
    by code_simp
  have n: "templateName ''b.html'' = ''b''"
    by code_simp
  note a = failed_compile [OF 1 2 3 4 5, of 5 JNull 200 "''/a.html''" Map.empty]
  have r1: "fst (respond exampleLibrary ?c (pagesDisk ''{{'') 5 JNull 200 ''/a.html'' Map.empty)
      = Some http404"
    using a by (rule conjunct1)
  have r2: "Lookup (snd (respond exampleLibrary ?c (pagesDisk ''{{'') 5 JNull 200 ''/a.html''
      Map.empty)) ''b'' = Some None"
    unfolding conjunct1 [OF conjunct2 [OF a]] by (simp add: Lookup_def n)
  let ?e = "newEngine (exampleConfig False [])"
  let ?V = "compileWalk exampleLibrary ?e ownNameDisk (New (config_dir (config ?e)))
      [Inr ''a.html'']"
  have 6: "templates ?e = None \<or> \<not> config_prod (config ?e)"
    by (simp add: newEngine_def)
  have 7: "Walk ownNameDisk (config_dir (config ?e)) = [Inr ''a.html''] @ Inr ''site.html'' # []"
    by code_simp
  have "snd ?V = None"
    by code_simp
  then obtain R where 8: "?V = (R, None)"
    by (metis prod.collapse)
  have 9: "Ext ''site.html'' = frontendExt \<or> Ext ''site.html'' = backendExt"
    by code_simp
  have 10: "Parse exampleLibrary (funcs ?e)
      (Read ownNameDisk (pathJoin [config_dir (config ?e), ''site.html'']))
      = Inl ''unclosed action''"
    by code_simp
  have "ts_handle (fst ?V)" and "ts_name (fst ?V) = ''site''"
    by code_simp+
  then have m: "ts_handle R" "ts_name R = ''site''"
    unfolding 8 by (simp_all only: fst_conv)
  have k: "templateName ''site.html'' = ''site''"
    by code_simp
  note b = failed_compile [OF 6 7 8 9 10, of 5 JNull 200 "''/a.html''" Map.empty]
  have r3: "fst (respond exampleLibrary ?e ownNameDisk 5 JNull 200 ''/a.html'' Map.empty)
      = Some http404"
    using b by (rule conjunct1)
  have r4: "Lookup (snd (respond exampleLibrary ?e ownNameDisk 5 JNull 200 ''/a.html''
      Map.empty)) ''site'' = Some None"
    "Lookup (snd (respond exampleLibrary ?e ownNameDisk 5 JNull 200 ''/a.html''
      Map.empty)) ''a'' = None"
    unfolding conjunct1 [OF conjunct2 [OF b]] by (simp_all add: Lookup_def k m)
  from r1 r2 r3 r4 show ?thesis
    by (intro conjI)
qed

text \<open>
  The claim as stated fails: the engine holds the three compiled pages; the second page
  is then broken on disk; the next development-mode render is answered with 404 and
  leaves a set in which the second page has no body and the third page is missing.
\<close>

theorem failed_compile_counterexample:
  "Lookup compiledEngine ''b'' = Some (Some [Text ''B''])
   \<and> Lookup compiledEngine ''c'' = Some (Some [Text ''C''])
   \<and> fst (respond exampleLibrary compiledEngine (pagesDisk ''{{'') 5 JNull 200 ''/a.html'' Map.empty)
       = Some http404
   \<and> Lookup (snd (respond exampleLibrary compiledEngine (pagesDisk ''{{'') 5 JNull 200 ''/a.html'' Map.empty)) ''b''
       = Some None
   \<and> Lookup (snd (respond exampleLibrary compiledEngine (pagesDisk ''{{'') 5 JNull 200 ''/a.html'' Map.empty)) ''c''
       = None"
  by code_simp

subsection \<open>Layout and \<open>yield\<close>\<close>

lemma execute_layout:
  assumes "config_prod (config e)" and "templates e = Some S" and "config_layout (config e) \<noteq> []"
  shows "fst (execute L e fs n f env)
         = template L (funcMapLayout S (templateName f) env) n (config_layout (config e)) env"
  using assms by (simp add: execute_def Let_def)

lemma yield_reproduces_page:
  assumes "ts_yield S = YieldLayout name ev" and "templateName name = name"
    and "template L S n name ev = Some (out, None)"
  shows "execNode L S (Suc n) env Yield = Some (out, None)"
  using assms
  by (auto simp: template_def ExecuteTemplate_def split: option.splits)

text \<open>
  Claim C8, evaluated on the example site, whose layout is \<open>[{{yield}}]\<close>. For the
  page \<open>page.html\<close> the layout is executed and \<open>yield\<close> gives the page. For the page
  \<open>index.en.html\<close>, whose template name \<open>index.en\<close> has a dot of its own, the page
  executed alone gives \<open>Hello\<close>, without a layout and also in the engine as the layout
  render leaves it; but the closure hands the name to \<open>engine.template\<close>, which strips an
  extension a second time and looks for a template \<open>index\<close>, so \<open>yield\<close> gives the
  empty string and the render is \<open>[]\<close>.
\<close>

theorem yield_dotted_name:
  "config_layout (exampleConfig False ''layout.html'') = ''layout''
   \<and> fst (execute exampleLibrary (newEngine (exampleConfig False ''layout.html'')) siteDisk 5
            ''/page.html'' Map.empty) = Some (''[Page]'', None)
   \<and> fst (execute exampleLibrary (newEngine (exampleConfig False [])) siteDisk 5
            ''/index.en.html'' Map.empty) = Some (''Hello'', None)
   \<and> (case templates (snd (execute exampleLibrary (newEngine (exampleConfig False ''layout.html''))
                             siteDisk 5 ''/index.en.html'' Map.empty)) of
         None \<Rightarrow> None
       | Some S \<Rightarrow> template exampleLibrary S 5 ''/index.en.html'' Map.empty)
       = Some (''Hello'', None)
   \<and> fst (execute exampleLibrary (newEngine (exampleConfig False ''layout.html'')) siteDisk 5
            ''/index.en.html'' Map.empty) = Some (''[]'', None)"
  by code_simp

subsection \<open>The status of a decorated response\<close>

lemma respond_status:
  "fst (respond L e fs n cfg st f data) = Some r \<Longrightarrow> status r = 200 \<or> status r = 404"
  by (auto simp: respond_def Let_def http404_def httpError_def StatusOK_def
      split: prod.splits option.splits)

lemma decorateJSON_status:
  "decorateJSON L res b = Inr r \<Longrightarrow> status r = StatusCode res"
  by (auto simp: decorateJSON_def split: sum.splits)

text \<open>
  Claim C1, evaluated on the example site: the backend answers the request for
  \<open>/widget\<close> with status 201 and a JSON object, the template \<open>widget.tmpl\<close> exists and
  is rendered with the object as its environment, and the response is written with
  status 200: \<open>respond\<close> receives the backend's status and writes \<open>http.StatusOK\<close>.
\<close>

theorem decorate_status_created:
  "ClientDo exampleLibrary ''GET'' ''http://api/widget'' []
     = Inr \<lparr>StatusCode = 201, ResponseBody = Inr ''{\"name\":\"x\"}''\<rparr>
   \<and> \<not> skipFile (newEngine (exampleConfig False [])) siteDisk ''widget.tmpl''
   \<and> fst (proxyServeHTTP exampleLibrary (newEngine (exampleConfig False [])) siteDisk 5 JNull
            (exampleRequest ''/widget''))
       = Some (Inr \<lparr>status = 200, contentType = Some ''text/html; charset=UTF-8'',
                     body = ''<b>x</b>''\<rparr>)"
  by code_simp

subsection \<open>A backend body that is not JSON\<close>

lemma proxy_decode_failure:
  assumes "NewRequest L (Method r) (cfgBackend (config e) @ TrimPrefix (RequestURI r) ''/'') = None"
    and "ClientDo L (Method r) (cfgBackend (config e) @ TrimPrefix (RequestURI r) ''/'') (Body r)
           = Inr res"
    and "ResponseBody res = Inr b"
    and "\<not> skipFile e fs (TrimSuffix (TrimPrefix (Path r) ''/'') (Ext (TrimPrefix (Path r) ''/''))
                           @ backendExt)"
    and "Unmarshal L b = Inl err"
  shows "proxyServeHTTP L e fs n cfg r = (Some (Inl (Exit err)), e)"
  using assms by (simp add: proxyServeHTTP_def decorate_def fail_def Let_def)

text \<open>
  Claim C2, evaluated on the example site: the backend answers the request for
  \<open>/report\<close> with a body that is not JSON, the template \<open>report.tmpl\<close> exists, and the
  decoding error reaches \<open>fail\<close>, which ends the process; no response is written.
\<close>

theorem decorate_malformed_json:
  "ClientDo exampleLibrary ''GET'' ''http://api/report'' []
     = Inr \<lparr>StatusCode = 200, ResponseBody = Inr ''<html>''\<rparr>
   \<and> \<not> skipFile (newEngine (exampleConfig False [])) siteDisk ''report.tmpl''
   \<and> Unmarshal exampleLibrary ''<html>'' = Inl ''invalid character''
   \<and> fst (proxyServeHTTP exampleLibrary (newEngine (exampleConfig False [])) siteDisk 5 JNull
            (exampleRequest ''/report''))
       = Some (Inl (Exit ''invalid character''))"
proof (intro conjI)
  show "Unmarshal exampleLibrary ''<html>'' = Inl ''invalid character''"
    by (simp add: exampleLibrary_def)
qed code_simp+

end
